theory Spec2Isabelle
  imports Main
begin

section \<open>The Python runtime pieces the script relies on\<close>

text \<open>
  The script \<^verbatim>\<open>kfto_mnist.py\<close> is one function \<^verbatim>\<open>main(parameters)\<close> with nested
  helpers (\<^verbatim>\<open>ddp_setup\<close>, the \<^verbatim>\<open>Trainer\<close> class, \<^verbatim>\<open>load_train_objs\<close>,
  \<^verbatim>\<open>prepare_dataloader\<close>) and a command-line entry block. Exceptions are values of
  the type \<open>error\<close>; a function that can raise returns \<open>error + 'a\<close> together with the
  process state reached when it raised.
\<close>

datatype type_error =
    UnexpectedKeyword string
  | MultipleValues string
  | TooManyPositional nat nat
  | MissingArguments "string list"
  | NotSubscriptable

datatype error =
    KeyError string
  | ValueError string
  | TypeError type_error
  | ZeroDivisionError
  | AttributeError string
  | FileNotFoundError string
  | NotADirectoryError string
  | IsADirectoryError string
  | FileExistsError string
  | CannotOpenFile string
  | UnpicklingError
  | GroupAlreadyInitialized
  | DistNetworkError
  | SystemExit int
  | InvalidDeviceString int
  | InvalidDeviceOrdinal int
  | StateDictMismatch "string list" "string list"

text \<open>
  \<^verbatim>\<open>int(s)\<close> on an ASCII string: surrounding whitespace (tab, line feed, vertical tab,
  form feed, carriage return, space) is dropped, one sign is allowed, then decimal
  digits, with single underscores allowed between digits. Anything else raises
  \<^verbatim>\<open>ValueError\<close>.
\<close>

definition is_space :: "char \<Rightarrow> bool" where
  "is_space c = (let n = (of_char c :: nat) in (9 \<le> n \<and> n \<le> 13) \<or> n = 32)"

definition digit_of :: "char \<Rightarrow> int option" where
  "digit_of c = (let n = (of_char c :: nat) in if 48 \<le> n \<and> n \<le> 57 then Some (int n - 48) else None)"

fun more_digits :: "int \<Rightarrow> string \<Rightarrow> int option" where
  "more_digits acc [] = Some acc"
| "more_digits acc [c] =
     (case digit_of c of None \<Rightarrow> None | Some v \<Rightarrow> Some (acc * 10 + v))"
| "more_digits acc (c # d # ds) =
     (if c = CHR ''_'' then
        (case digit_of d of None \<Rightarrow> None | Some v \<Rightarrow> more_digits (acc * 10 + v) ds)
      else
        (case digit_of c of None \<Rightarrow> None | Some v \<Rightarrow> more_digits (acc * 10 + v) (d # ds)))"

definition py_int :: "string \<Rightarrow> error + int" where
  "py_int s =
     (let t = rev (dropWhile is_space (rev (dropWhile is_space s)));
          sign = (case t of [] \<Rightarrow> 1 | c # cs \<Rightarrow> if c = CHR ''-'' then - 1 else 1);
          body = (case t of [] \<Rightarrow> [] | c # cs \<Rightarrow> if c = CHR ''-'' \<or> c = CHR ''+'' then cs else t)
      in case body of
           [] \<Rightarrow> Inl (ValueError s)
         | c # cs \<Rightarrow>
             (case digit_of c of
                None \<Rightarrow> Inl (ValueError s)
              | Some v \<Rightarrow>
                  (case more_digits v cs of
                     None \<Rightarrow> Inl (ValueError s)
                   | Some n \<Rightarrow> Inr (sign * n))))"

text \<open>\<^verbatim>\<open>range(a, b)\<close> over Python's unbounded integers.\<close>

definition py_range :: "int \<Rightarrow> int \<Rightarrow> int list" where
  "py_range a b = [a..b - 1]"

text \<open>\<^verbatim>\<open>os.path.dirname\<close> (POSIX): the part up to the last slash, trailing slashes removed
  unless the head consists of slashes only.\<close>

definition dirname :: "string \<Rightarrow> string" where
  "dirname p =
     (let head = rev (dropWhile (\<lambda>c. c \<noteq> CHR ''/'') (rev p))
      in if head \<noteq> [] \<and> \<not> list_all (\<lambda>c. c = CHR ''/'') head
         then rev (dropWhile (\<lambda>c. c = CHR ''/'') (rev head))
         else head)"

section \<open>What the launcher and the machine provide\<close>

text \<open>
  The two environment variables the script reads; the variables and the reachability of
  the master's store that \<^verbatim>\<open>dist.init_process_group\<close> needs for its \<^verbatim>\<open>env://\<close>
  rendezvous; the working directory, as the list of names from the root; and the two
  facts the script asks of \<^verbatim>\<open>torch.cuda\<close>. They are fixed for the life of a process.
\<close>

record host =
  LOCAL_RANK :: "string option"
  RANK :: "string option"
  WORLD_SIZE :: "string option"
  MASTER_ADDR :: "string option"
  MASTER_PORT :: "string option"
  store_reachable :: bool
  cwd :: "string list"
  cuda_is_available :: bool
  cuda_device_count :: int

text \<open>\<^verbatim>\<open>int(os.environ.get(name, default))\<close> with an integer default.\<close>

definition environ_get_int :: "string option \<Rightarrow> int \<Rightarrow> error + int" where
  "environ_get_int var dflt = (case var of None \<Rightarrow> Inr dflt | Some s \<Rightarrow> py_int s)"

text \<open>\<^verbatim>\<open>int(os.environ[name])\<close>: a missing variable is a \<^verbatim>\<open>KeyError\<close>.\<close>

definition environ_int :: "string \<Rightarrow> string option \<Rightarrow> error + int" where
  "environ_int name var = (case var of None \<Rightarrow> Inl (KeyError name) | Some s \<Rightarrow> py_int s)"

text \<open>
  The \<^verbatim>\<open>env://\<close> rendezvous of \<^verbatim>\<open>dist.init_process_group\<close>: it reads the rank, the
  world size, the master's address and port, in this order, a missing variable being a
  \<^verbatim>\<open>ValueError\<close>, and then connects to the master's store. It returns the rank and the
  world size.
\<close>

definition rendezvous :: "host \<Rightarrow> error + int \<times> int" where
  "rendezvous h =
     (case RANK h of
        None \<Rightarrow> Inl (ValueError ''RANK'')
      | Some r \<Rightarrow>
     (case py_int r of
        Inl e \<Rightarrow> Inl e
      | Inr rank \<Rightarrow>
     (case WORLD_SIZE h of
        None \<Rightarrow> Inl (ValueError ''WORLD_SIZE'')
      | Some ws \<Rightarrow>
     (case py_int ws of
        Inl e \<Rightarrow> Inl e
      | Inr world_size \<Rightarrow>
     (case MASTER_ADDR h of
        None \<Rightarrow> Inl (ValueError ''MASTER_ADDR'')
      | Some addr \<Rightarrow>
     (case MASTER_PORT h of
        None \<Rightarrow> Inl (ValueError ''MASTER_PORT'')
      | Some port \<Rightarrow>
     (case py_int port of
        Inl e \<Rightarrow> Inl e
      | Inr port_number \<Rightarrow>
          if store_reachable h then Inr (rank, world_size) else Inl DistNetworkError)))))))"

section \<open>The model and its state dict\<close>

text \<open>
  Tensors are opaque to the control loop; a tensor is a list of numbers here. \<^verbatim>\<open>Net\<close>
  has two convolutions and two linear layers, so its state dict has eight entries, in
  registration order.
\<close>

type_synonym tensor = "int list"

type_synonym state_dict = "(string \<times> tensor) list"

record Net =
  conv1_weight :: tensor
  conv1_bias :: tensor
  conv2_weight :: tensor
  conv2_bias :: tensor
  fc1_weight :: tensor
  fc1_bias :: tensor
  fc2_weight :: tensor
  fc2_bias :: tensor

definition Net_keys :: "string list" where
  "Net_keys = [''conv1.weight'', ''conv1.bias'', ''conv2.weight'', ''conv2.bias'',
               ''fc1.weight'', ''fc1.bias'', ''fc2.weight'', ''fc2.bias'']"

definition Net_state_dict :: "Net \<Rightarrow> state_dict" where
  "Net_state_dict n =
     [(''conv1.weight'', conv1_weight n), (''conv1.bias'', conv1_bias n),
      (''conv2.weight'', conv2_weight n), (''conv2.bias'', conv2_bias n),
      (''fc1.weight'', fc1_weight n), (''fc1.bias'', fc1_bias n),
      (''fc2.weight'', fc2_weight n), (''fc2.bias'', fc2_bias n)]"

text \<open>
  \<^verbatim>\<open>load_state_dict\<close> with its default \<^verbatim>\<open>strict=True\<close>: every expected key must be
  present and no other key may be; otherwise \<^verbatim>\<open>RuntimeError\<close> with the missing and the
  unexpected keys. The expected keys are the module's own, under the given prefix.
\<close>

definition copy_param :: "state_dict \<Rightarrow> string \<Rightarrow> tensor \<Rightarrow> tensor" where
  "copy_param sd k cur = (case map_of sd k of None \<Rightarrow> cur | Some v \<Rightarrow> v)"

definition Net_load_state_dict :: "string \<Rightarrow> Net \<Rightarrow> state_dict \<Rightarrow> error + Net" where
  "Net_load_state_dict prefix n sd =
     (let expected = map (\<lambda>k. prefix @ k) Net_keys;
          missing_keys = filter (\<lambda>k. k \<notin> set (map fst sd)) expected;
          unexpected_keys = filter (\<lambda>k. k \<notin> set expected) (map fst sd)
      in if missing_keys = [] \<and> unexpected_keys = []
         then Inr \<lparr>conv1_weight = copy_param sd (prefix @ ''conv1.weight'') (conv1_weight n),
                   conv1_bias = copy_param sd (prefix @ ''conv1.bias'') (conv1_bias n),
                   conv2_weight = copy_param sd (prefix @ ''conv2.weight'') (conv2_weight n),
                   conv2_bias = copy_param sd (prefix @ ''conv2.bias'') (conv2_bias n),
                   fc1_weight = copy_param sd (prefix @ ''fc1.weight'') (fc1_weight n),
                   fc1_bias = copy_param sd (prefix @ ''fc1.bias'') (fc1_bias n),
                   fc2_weight = copy_param sd (prefix @ ''fc2.weight'') (fc2_weight n),
                   fc2_bias = copy_param sd (prefix @ ''fc2.bias'') (fc2_bias n)\<rparr>
         else Inl (StateDictMismatch missing_keys unexpected_keys))"

text \<open>
  \<open>self.model\<close> is the bare \<^verbatim>\<open>Net\<close> until the end of \<^verbatim>\<open>Trainer.__init__\<close> and the
  \<^verbatim>\<open>DistributedDataParallel\<close> wrapper afterwards. The wrapper registers the network as
  its submodule \<^verbatim>\<open>module\<close>, so the wrapper's own state dict has every key prefixed
  with \<^verbatim>\<open>module.\<close>; only the wrapper has the attribute \<^verbatim>\<open>module\<close>.
\<close>

datatype module = Bare Net | DDP Net

definition state_dict_of :: "module \<Rightarrow> state_dict" where
  "state_dict_of m =
     (case m of
        Bare n \<Rightarrow> Net_state_dict n
      | DDP n \<Rightarrow> map (\<lambda>(k, v). (''module.'' @ k, v)) (Net_state_dict n))"

definition module_attr :: "module \<Rightarrow> error + Net" where
  "module_attr m = (case m of Bare n \<Rightarrow> Inl (AttributeError ''module'') | DDP n \<Rightarrow> Inr n)"

definition load_state_dict :: "module \<Rightarrow> state_dict \<Rightarrow> error + module" where
  "load_state_dict m sd =
     (case m of
        Bare n \<Rightarrow> (case Net_load_state_dict [] n sd of Inl e \<Rightarrow> Inl e | Inr n' \<Rightarrow> Inr (Bare n'))
      | DDP n \<Rightarrow> (case Net_load_state_dict ''module.'' n sd of Inl e \<Rightarrow> Inl e | Inr n' \<Rightarrow> Inr (DDP n')))"

section \<open>Process state\<close>

datatype device = Cpu | Cuda int

datatype level = INFO | WARNING

datatype log_msg =
    InvalidOrdinal int
  | NoGpuFallback
  | UsingDevice device
  | LoadingSnapshot
  | ResumingFrom int
  | EpochStart bool int int
  | SnapshotSaved int string

record snapshot =
  MODEL_STATE :: state_dict
  EPOCHS_RUN :: int

text \<open>
  The file system is a tree: a location is the list of names from the root, and holds a
  directory, a snapshot file, or a file that is not a snapshot. The root is a directory.
  A path is split at its slashes and walked from the root (when it starts with a slash)
  or from the working directory: an empty component and \<^verbatim>\<open>.\<close> stay, \<^verbatim>\<open>..\<close> goes to the
  parent, a name goes to the child; each component is looked up in a directory, so that
  a missing or non-directory location on the way is an error. The empty path names
  nothing. Access rights and links are not part of the model.
\<close>

datatype node = Dir | Garbage | SnapshotFile snapshot

type_synonym location = "string list"

type_synonym file_system = "location \<rightharpoonup> node"

definition node_at :: "file_system \<Rightarrow> location \<Rightarrow> node option" where
  "node_at fs loc = (if loc = [] then Some Dir else fs loc)"

fun split_slash :: "string \<Rightarrow> string list" where
  "split_slash [] = [[]]"
| "split_slash (c # cs) =
     (if c = CHR ''/'' then [] # split_slash cs
      else (case split_slash cs of [] \<Rightarrow> [[c]] | x # xs \<Rightarrow> (c # x) # xs))"

definition step :: "location \<Rightarrow> string \<Rightarrow> location" where
  "step cur c = (if c = [] \<or> c = ''.'' then cur else if c = ''..'' then butlast cur else cur @ [c])"

fun walk :: "file_system \<Rightarrow> string \<Rightarrow> location \<Rightarrow> string list \<Rightarrow> error + location" where
  "walk fs p cur [] = Inr cur"
| "walk fs p cur (c # cs) =
     (case node_at fs cur of
        None \<Rightarrow> Inl (FileNotFoundError p)
      | Some Dir \<Rightarrow> walk fs p (step cur c) cs
      | Some Garbage \<Rightarrow> Inl (NotADirectoryError p)
      | Some (SnapshotFile sn) \<Rightarrow> Inl (NotADirectoryError p))"

definition start_of :: "host \<Rightarrow> string \<Rightarrow> location" where
  "start_of h p = (case p of [] \<Rightarrow> cwd h | c # cs \<Rightarrow> if c = CHR ''/'' then [] else cwd h)"

definition resolve :: "host \<Rightarrow> file_system \<Rightarrow> string \<Rightarrow> error + location" where
  "resolve h fs p =
     (if p = [] then Inl (FileNotFoundError p) else walk fs p (start_of h p) (split_slash p))"

text \<open>\<^verbatim>\<open>os.path.exists\<close>: whether the path leads to a file or a directory; never raises.\<close>

definition path_exists :: "host \<Rightarrow> file_system \<Rightarrow> string \<Rightarrow> bool" where
  "path_exists h fs p =
     (case resolve h fs p of
        Inl e \<Rightarrow> False
      | Inr loc \<Rightarrow> (case node_at fs loc of None \<Rightarrow> False | Some n \<Rightarrow> True))"

text \<open>
  \<^verbatim>\<open>os.makedirs(d, exist_ok=True)\<close> creates the directories that are missing along the
  path. A file in the place of a directory is an error: \<^verbatim>\<open>FileExistsError\<close> when it is
  the last name of the path, \<^verbatim>\<open>NotADirectoryError\<close> when the path goes on. The
  directories created before the error stay.
\<close>

fun mkdirs ::
  "file_system \<Rightarrow> string \<Rightarrow> location \<Rightarrow> string list \<Rightarrow> (error + unit) \<times> file_system" where
  "mkdirs fs p cur [] = (Inr (), fs)"
| "mkdirs fs p cur (c # cs) =
     (if c = [] \<or> c = ''.'' \<or> c = ''..'' then mkdirs fs p (step cur c) cs
      else
        (case node_at fs (cur @ [c]) of
           None \<Rightarrow> mkdirs (fs(cur @ [c] \<mapsto> Dir)) p (cur @ [c]) cs
         | Some Dir \<Rightarrow> mkdirs fs p (cur @ [c]) cs
         | Some Garbage \<Rightarrow>
             (Inl (if list_all (\<lambda>x. x = []) cs then FileExistsError p else NotADirectoryError p), fs)
         | Some (SnapshotFile sn) \<Rightarrow>
             (Inl (if list_all (\<lambda>x. x = []) cs then FileExistsError p else NotADirectoryError p), fs)))"

text \<open>
  Everything the run changes: the file system, the log records (the logger's level is
  INFO, so both levels are emitted), the CUDA device bound to the process, the process
  group (by its backend), the number of \<^verbatim>\<open>destroy_process_group\<close> calls, the epoch
  indices \<^verbatim>\<open>_run_epoch\<close> ran, and the snapshots \<^verbatim>\<open>torch.save\<close> has written.
\<close>

record world =
  files :: file_system
  logged :: "(level \<times> log_msg) list"
  current_device :: "int option"
  process_group :: "string option"
  destroy_calls :: nat
  epochs_executed :: "int list"
  saved :: "snapshot list"

text \<open>A new process on a given file system.\<close>

definition process_start :: "file_system \<Rightarrow> world" where
  "process_start fs =
     \<lparr>files = fs, logged = [], current_device = None, process_group = None,
      destroy_calls = 0, epochs_executed = [], saved = []\<rparr>"

definition info :: "log_msg \<Rightarrow> world \<Rightarrow> world" where
  "info m w = w\<lparr>logged := logged w @ [(INFO, m)]\<rparr>"

definition warning :: "log_msg \<Rightarrow> world \<Rightarrow> world" where
  "warning m w = w\<lparr>logged := logged w @ [(WARNING, m)]\<rparr>"

text \<open>
  The library calls with an effect. \<^verbatim>\<open>torch.cuda.set_device\<close> does nothing for a
  negative ordinal and fails for one that is not below the device count. Moving a module
  to a CUDA device, and loading a file onto one, fail for an ordinal outside the device
  range. \<^verbatim>\<open>torch.device\<close> rejects the string \<^verbatim>\<open>cuda:-1\<close> (a device string has digits
  after the colon). \<^verbatim>\<open>dist.init_process_group\<close> refuses a second initialisation and
  otherwise fails when the rendezvous does. \<^verbatim>\<open>torch.load\<close> opens the file at the path
  for reading; \<^verbatim>\<open>torch.save\<close> creates or replaces the file at the path, and fails when
  the path does not lead into a directory or leads to a directory.
\<close>

definition set_device :: "host \<Rightarrow> int \<Rightarrow> world \<Rightarrow> (error + unit) \<times> world" where
  "set_device h d w =
     (if d < 0 then (Inr (), w)
      else if d < cuda_device_count h then (Inr (), w\<lparr>current_device := Some d\<rparr>)
      else (Inl (InvalidDeviceOrdinal d), w))"

definition init_process_group :: "host \<Rightarrow> string \<Rightarrow> world \<Rightarrow> (error + unit) \<times> world" where
  "init_process_group h backend w =
     (case process_group w of
        Some g \<Rightarrow> (Inl GroupAlreadyInitialized, w)
      | None \<Rightarrow>
          (case rendezvous h of
             Inl e \<Rightarrow> (Inl e, w)
           | Inr r \<Rightarrow> (Inr (), w\<lparr>process_group := Some backend\<rparr>)))"

definition destroy_process_group :: "world \<Rightarrow> world" where
  "destroy_process_group w = w\<lparr>process_group := None, destroy_calls := destroy_calls w + 1\<rparr>"

definition torch_device_cuda :: "int \<Rightarrow> error + device" where
  "torch_device_cuda i = (if i < 0 then Inl (InvalidDeviceString i) else Inr (Cuda i))"

definition device_usable :: "host \<Rightarrow> device \<Rightarrow> error + unit" where
  "device_usable h d =
     (case d of
        Cpu \<Rightarrow> Inr ()
      | Cuda i \<Rightarrow> if 0 \<le> i \<and> i < cuda_device_count h then Inr () else Inl (InvalidDeviceOrdinal i))"

definition torch_load :: "host \<Rightarrow> file_system \<Rightarrow> string \<Rightarrow> device \<Rightarrow> error + snapshot" where
  "torch_load h fs path map_location =
     (case resolve h fs path of
        Inl e \<Rightarrow> Inl e
      | Inr loc \<Rightarrow>
          (case node_at fs loc of
             None \<Rightarrow> Inl (FileNotFoundError path)
           | Some Dir \<Rightarrow> Inl (IsADirectoryError path)
           | Some Garbage \<Rightarrow> Inl UnpicklingError
           | Some (SnapshotFile sn) \<Rightarrow>
               (case device_usable h map_location of Inl e \<Rightarrow> Inl e | Inr u \<Rightarrow> Inr sn)))"

definition torch_save :: "host \<Rightarrow> snapshot \<Rightarrow> string \<Rightarrow> world \<Rightarrow> (error + unit) \<times> world" where
  "torch_save h sn path w =
     (case resolve h (files w) path of
        Inl e \<Rightarrow> (Inl (CannotOpenFile path), w)
      | Inr loc \<Rightarrow>
          (case node_at (files w) loc of
             Some Dir \<Rightarrow> (Inl (CannotOpenFile path), w)
           | _ \<Rightarrow>
               (Inr (), w\<lparr>files := (files w)(loc \<mapsto> SnapshotFile sn), saved := saved w @ [sn]\<rparr>)))"

definition makedirs :: "host \<Rightarrow> string \<Rightarrow> world \<Rightarrow> (error + unit) \<times> world" where
  "makedirs h d w =
     (if d = [] then (Inl (FileNotFoundError d), w)
      else
        (case node_at (files w) (start_of h d) of
           Some Dir \<Rightarrow>
             (case mkdirs (files w) d (start_of h d) (split_slash d) of
                (r, fs) \<Rightarrow> (r, w\<lparr>files := fs\<rparr>))
         | _ \<Rightarrow> (Inl (FileNotFoundError d), w)))"

section \<open>Process-group setup\<close>

definition ddp_setup :: "host \<Rightarrow> string \<Rightarrow> world \<Rightarrow> (error + unit) \<times> world" where
  "ddp_setup h backend w =
     (if cuda_is_available h \<and> backend = ''nccl'' then
        (let num_devices = cuda_device_count h in
         case environ_get_int (LOCAL_RANK h) 0 of
           Inl e \<Rightarrow> (Inl e, w)
         | Inr device \<Rightarrow>
             (if device \<ge> num_devices then
                (case set_device h 0 (warning (InvalidOrdinal device) w) of
                   (Inl e, w') \<Rightarrow> (Inl e, w')
                 | (Inr u, w') \<Rightarrow> init_process_group h backend w')
              else
                (case set_device h device w of
                   (Inl e, w') \<Rightarrow> (Inl e, w')
                 | (Inr u, w') \<Rightarrow> init_process_group h backend w')))
      else init_process_group h ''gloo'' (info NoGpuFallback w))"

section \<open>The Trainer\<close>

text \<open>
  The fields of \<^verbatim>\<open>Trainer\<close> the control loop reads. The data loader and the optimizer
  are opaque: what one epoch of batches does to the parameters is the function \<open>fit\<close>
  that \<open>run_epoch\<close> takes.
\<close>

record Trainer =
  local_rank :: int
  global_rank :: int
  model :: module
  save_every :: int
  epochs_run :: int
  snapshot_path :: string
  backend :: string
  device :: device

definition load_snapshot :: "host \<Rightarrow> Trainer \<Rightarrow> string \<Rightarrow> world \<Rightarrow> (error + Trainer) \<times> world" where
  "load_snapshot h t path w =
     (case torch_load h (files w) path (device t) of
        Inl e \<Rightarrow> (Inl e, w)
      | Inr sn \<Rightarrow>
          (case load_state_dict (model t) (MODEL_STATE sn) of
             Inl e \<Rightarrow> (Inl e, w)
           | Inr m \<Rightarrow>
               (Inr (t\<lparr>model := m, epochs_run := EPOCHS_RUN sn\<rparr>),
                info (ResumingFrom (EPOCHS_RUN sn)) w)))"

definition save_snapshot :: "host \<Rightarrow> Trainer \<Rightarrow> int \<Rightarrow> world \<Rightarrow> (error + unit) \<times> world" where
  "save_snapshot h t epoch w =
     (case (if cuda_is_available h
            then (case module_attr (model t) of Inl e \<Rightarrow> Inl e | Inr n \<Rightarrow> Inr (Net_state_dict n))
            else Inr (state_dict_of (model t))) of
        Inl e \<Rightarrow> (Inl e, w)
      | Inr sd \<Rightarrow>
          (case torch_save h \<lparr>MODEL_STATE = sd, EPOCHS_RUN = epoch\<rparr> (snapshot_path t) w of
             (Inl e, w') \<Rightarrow> (Inl e, w')
           | (Inr u, w') \<Rightarrow> (Inr (), info (SnapshotSaved epoch (snapshot_path t)) w')))"

definition Trainer_init ::
  "host \<Rightarrow> Net \<Rightarrow> int \<Rightarrow> string \<Rightarrow> string \<Rightarrow> world \<Rightarrow> (error + Trainer) \<times> world" where
  "Trainer_init h net save_every' snapshot_path' backend' w =
     (case environ_get_int (LOCAL_RANK h) (- 1) of
        Inl e \<Rightarrow> (Inl e, w)
      | Inr lr \<Rightarrow>
     (case environ_int ''RANK'' (RANK h) of
        Inl e \<Rightarrow> (Inl e, w)
      | Inr gr \<Rightarrow>
     (case (if cuda_is_available h \<and> backend' = ''nccl'' then torch_device_cuda lr else Inr Cpu) of
        Inl e \<Rightarrow> (Inl e, w)
      | Inr dev \<Rightarrow>
          (let t = \<lparr>local_rank = lr, global_rank = gr, model = Bare net,
                    save_every = save_every', epochs_run = 0,
                    snapshot_path = snapshot_path', backend = backend', device = dev\<rparr>;
               w1 = info (UsingDevice dev) w;
               snapshot_dir = dirname snapshot_path'
           in case (if snapshot_dir \<noteq> [] then makedirs h snapshot_dir w1 else (Inr (), w1)) of
                (Inl e, w2) \<Rightarrow> (Inl e, w2)
              | (Inr u, w2) \<Rightarrow>
             (case (if path_exists h (files w2) snapshot_path'
                    then load_snapshot h t snapshot_path' (info LoadingSnapshot w2)
                    else (Inr t, w2)) of
                (Inl e, w3) \<Rightarrow> (Inl e, w3)
              | (Inr t', w3) \<Rightarrow>
                  (case device_usable h (device t') of
                     Inl e \<Rightarrow> (Inl e, w3)
                   | Inr u \<Rightarrow>
                       (case model t' of
                          Bare n \<Rightarrow> (Inr (t'\<lparr>model := DDP n\<rparr>), w3)
                        | DDP n \<Rightarrow> (Inr (t'\<lparr>model := DDP n\<rparr>), w3))))))))"

definition fit_module :: "(int \<Rightarrow> Net \<Rightarrow> Net) \<Rightarrow> int \<Rightarrow> module \<Rightarrow> module" where
  "fit_module fit epoch m = (case m of Bare n \<Rightarrow> Bare (fit epoch n) | DDP n \<Rightarrow> DDP (fit epoch n))"

definition run_epoch ::
  "(int \<Rightarrow> Net \<Rightarrow> Net) \<Rightarrow> host \<Rightarrow> Trainer \<Rightarrow> int \<Rightarrow> string \<Rightarrow> world \<Rightarrow> Trainer \<times> world" where
  "run_epoch fit h t epoch backend' w =
     (let w1 = info (EpochStart (cuda_is_available h \<and> backend' = ''nccl'') (global_rank t) epoch) w
      in (t\<lparr>model := fit_module fit epoch (model t)\<rparr>,
          w1\<lparr>epochs_executed := epochs_executed w1 @ [epoch]\<rparr>))"

text \<open>
  The body of the epoch loop of \<^verbatim>\<open>train\<close>, over the epoch indices that remain.
  \<^verbatim>\<open>and\<close> evaluates its right operand only for global rank 0, so the modulus (and its
  \<^verbatim>\<open>ZeroDivisionError\<close>) is reached only there.
\<close>

fun train_loop ::
  "(int \<Rightarrow> Net \<Rightarrow> Net) \<Rightarrow> host \<Rightarrow> string \<Rightarrow> Trainer \<Rightarrow> int list \<Rightarrow> world \<Rightarrow> (error + Trainer) \<times> world" where
  "train_loop fit h backend' t [] w = (Inr t, w)"
| "train_loop fit h backend' t (epoch # rest) w =
     (case run_epoch fit h t epoch backend' w of
        (t1, w1) \<Rightarrow>
          (if global_rank t1 = 0 then
             (if save_every t1 = 0 then (Inl ZeroDivisionError, w1)
              else if epoch mod save_every t1 = 0 then
                (case save_snapshot h t1 epoch w1 of
                   (Inl e, w2) \<Rightarrow> (Inl e, w2)
                 | (Inr u, w2) \<Rightarrow> train_loop fit h backend' t1 rest w2)
              else train_loop fit h backend' t1 rest w1)
           else train_loop fit h backend' t1 rest w1))"

definition train ::
  "(int \<Rightarrow> Net \<Rightarrow> Net) \<Rightarrow> host \<Rightarrow> Trainer \<Rightarrow> int \<Rightarrow> string \<Rightarrow> world \<Rightarrow> (error + Trainer) \<times> world" where
  "train fit h t max_epochs backend' w =
     train_loop fit h backend' t (py_range (epochs_run t) max_epochs) w"

section \<open>main and the command-line entry\<close>

text \<open>
  \<^verbatim>\<open>parameters\<close> is a dict; a key it lacks raises \<^verbatim>\<open>KeyError\<close> at the subscript. The
  values have the types the entry block's parser declares. The learning rate is never
  inspected (a decimal mantissa and exponent stand for it).
\<close>

type_synonym pyfloat = "int \<times> int"

record parameters =
  p_epochs :: "int option"
  p_save_every :: "int option"
  p_batch_size :: "int option"
  p_lr :: "pyfloat option"
  p_dataset_path :: "string option"
  p_snapshot_path :: "string option"
  p_backend :: "string option"

definition subscript :: "string \<Rightarrow> 'a option \<Rightarrow> error + 'a" where
  "subscript key v = (case v of None \<Rightarrow> Inl (KeyError key) | Some x \<Rightarrow> Inr x)"

text \<open>
  \<open>fresh\<close> is the network \<^verbatim>\<open>load_train_objs\<close> returns (\<^verbatim>\<open>Net()\<close>, newly initialised);
  the data set and the loader are opaque.
\<close>

definition main ::
  "(int \<Rightarrow> Net \<Rightarrow> Net) \<Rightarrow> Net \<Rightarrow> host \<Rightarrow> parameters \<Rightarrow> world \<Rightarrow> (error + unit) \<times> world" where
  "main fit fresh h params w =
     (case subscript ''epochs'' (p_epochs params) of Inl e \<Rightarrow> (Inl e, w) | Inr epochs \<Rightarrow>
     (case subscript ''save_every'' (p_save_every params) of Inl e \<Rightarrow> (Inl e, w) | Inr save_every' \<Rightarrow>
     (case subscript ''batch_size'' (p_batch_size params) of Inl e \<Rightarrow> (Inl e, w) | Inr batch_size \<Rightarrow>
     (case subscript ''lr'' (p_lr params) of Inl e \<Rightarrow> (Inl e, w) | Inr lr \<Rightarrow>
     (case subscript ''dataset_path'' (p_dataset_path params) of Inl e \<Rightarrow> (Inl e, w) | Inr dataset_path \<Rightarrow>
     (case subscript ''snapshot_path'' (p_snapshot_path params) of Inl e \<Rightarrow> (Inl e, w) | Inr snapshot_path' \<Rightarrow>
     (case subscript ''backend'' (p_backend params) of Inl e \<Rightarrow> (Inl e, w) | Inr backend' \<Rightarrow>
     (case ddp_setup h backend' w of
        (Inl e, w1) \<Rightarrow> (Inl e, w1)
      | (Inr u, w1) \<Rightarrow>
     (case Trainer_init h fresh save_every' snapshot_path' backend' w1 of
        (Inl e, w2) \<Rightarrow> (Inl e, w2)
      | (Inr trainer, w2) \<Rightarrow>
     (case train fit h trainer epochs backend' w2 of
        (Inl e, w3) \<Rightarrow> (Inl e, w3)
      | (Inr trainer', w3) \<Rightarrow> (Inr (), destroy_process_group w3)))))))))))"

text \<open>
  Binding the arguments of a call to a function whose parameters are all plain (no
  defaults, no \<^verbatim>\<open>*args\<close>, no \<^verbatim>\<open>**kwargs\<close>): positional arguments fill the parameters in
  order; each keyword must name a parameter not yet bound; then too many positional
  arguments and unbound parameters are errors. Each failure is a \<^verbatim>\<open>TypeError\<close>.
\<close>

fun bind_keywords ::
  "string list \<Rightarrow> (string \<times> 'v) list \<Rightarrow> (string \<times> 'v) list \<Rightarrow> error + (string \<times> 'v) list" where
  "bind_keywords names bound [] = Inr bound"
| "bind_keywords names bound ((k, v) # kws) =
     (if k \<notin> set names then Inl (TypeError (UnexpectedKeyword k))
      else if k \<in> set (map fst bound) then Inl (TypeError (MultipleValues k))
      else bind_keywords names (bound @ [(k, v)]) kws)"

definition bind_arguments ::
  "string list \<Rightarrow> 'v list \<Rightarrow> (string \<times> 'v) list \<Rightarrow> error + (string \<times> 'v) list" where
  "bind_arguments names pos kws =
     (case bind_keywords names (zip names pos) kws of
        Inl e \<Rightarrow> Inl e
      | Inr bound \<Rightarrow>
          if length pos > length names
          then Inl (TypeError (TooManyPositional (length names) (length pos)))
          else if filter (\<lambda>p. p \<notin> set (map fst bound)) names \<noteq> []
          then Inl (TypeError (MissingArguments (filter (\<lambda>p. p \<notin> set (map fst bound)) names)))
          else Inr bound)"

datatype pyobj = PInt int | PFloat pyfloat | PStr string | PDict parameters

text \<open>A call of \<^verbatim>\<open>main\<close>, whose one parameter is \<^verbatim>\<open>parameters\<close>; subscripting a number
  with a string, or a string with a string, is a \<^verbatim>\<open>TypeError\<close>.\<close>

definition call_main ::
  "(int \<Rightarrow> Net \<Rightarrow> Net) \<Rightarrow> Net \<Rightarrow> host \<Rightarrow> pyobj list \<Rightarrow> (string \<times> pyobj) list \<Rightarrow> world
     \<Rightarrow> (error + unit) \<times> world" where
  "call_main fit fresh h pos kws w =
     (case bind_arguments [''parameters''] pos kws of
        Inl e \<Rightarrow> (Inl e, w)
      | Inr bound \<Rightarrow>
          (case map_of bound ''parameters'' of
             Some (PDict p) \<Rightarrow> main fit fresh h p w
           | _ \<Rightarrow> (Inl (TypeError NotSubscriptable), w)))"

text \<open>
  The entry block first runs \<^verbatim>\<open>parser.parse_args()\<close> on the command line. The parser
  either ends the process with \<^verbatim>\<open>SystemExit\<close> (status 2 for a command line it rejects,
  such as one without \<^verbatim>\<open>--epochs\<close> or with a backend other than gloo and nccl, status
  0 after \<^verbatim>\<open>--help\<close>) or returns a namespace with the seven arguments. What the
  parser does with a given command line is the library's business; the entry block is
  modelled on its outcome. With a namespace, the entry block calls \<open>main\<close> with seven
  keyword arguments.
\<close>

record args =
  a_epochs :: int
  a_save_every :: int
  a_batch_size :: int
  a_lr :: pyfloat
  a_dataset_path :: string
  a_snapshot_path :: string
  a_backend :: string

datatype parse_outcome = Exits int | Namespace args

definition entry_point ::
  "(int \<Rightarrow> Net \<Rightarrow> Net) \<Rightarrow> Net \<Rightarrow> host \<Rightarrow> parse_outcome \<Rightarrow> world \<Rightarrow> (error + unit) \<times> world" where
  "entry_point fit fresh h parsed w =
     (case parsed of
        Exits status \<Rightarrow> (Inl (SystemExit status), w)
      | Namespace a \<Rightarrow>
          call_main fit fresh h []
            [(''epochs'', PInt (a_epochs a)),
             (''save_every'', PInt (a_save_every a)),
             (''batch_size'', PInt (a_batch_size a)),
             (''lr'', PFloat (a_lr a)),
             (''dataset_path'', PStr (a_dataset_path a)),
             (''snapshot_path'', PStr (a_snapshot_path a)),
             (''backend'', PStr (a_backend a))]
            w)"

section \<open>Concrete configurations\<close>

text \<open>
  A network, an epoch function that leaves a trace of the epoch index in the last bias,
  an accelerator host and a host without accelerator, both as a single process started
  in the root directory, and the parameters of a run with the entry block's defaults.
\<close>

definition demo_net :: Net where
  "demo_net =
     \<lparr>conv1_weight = [1], conv1_bias = [2], conv2_weight = [3], conv2_bias = [4],
      fc1_weight = [5], fc1_bias = [6], fc2_weight = [7], fc2_bias = [8]\<rparr>"

definition demo_fit :: "int \<Rightarrow> Net \<Rightarrow> Net" where
  "demo_fit epoch n = n\<lparr>fc2_bias := epoch # fc2_bias n\<rparr>"

definition gpu_host :: "string option \<Rightarrow> int \<Rightarrow> host" where
  "gpu_host lr count =
     \<lparr>LOCAL_RANK = lr, RANK = Some ''0'', WORLD_SIZE = Some ''1'',
      MASTER_ADDR = Some ''localhost'', MASTER_PORT = Some ''29500'', store_reachable = True,
      cwd = [], cuda_is_available = True, cuda_device_count = count\<rparr>"

definition cpu_host :: "string option \<Rightarrow> host" where
  "cpu_host rank =
     \<lparr>LOCAL_RANK = None, RANK = rank, WORLD_SIZE = Some ''1'',
      MASTER_ADDR = Some ''localhost'', MASTER_PORT = Some ''29500'', store_reachable = True,
      cwd = [], cuda_is_available = False, cuda_device_count = 0\<rparr>"

definition demo_parameters :: "int \<Rightarrow> int \<Rightarrow> string \<Rightarrow> parameters" where
  "demo_parameters n every b =
     \<lparr>p_epochs = Some n, p_save_every = Some every, p_batch_size = Some 64,
      p_lr = Some (1, - 3), p_dataset_path = Some ''../data'',
      p_snapshot_path = Some ''snapshot_mnist.pt'', p_backend = Some b\<rparr>"

definition cpu_trainer :: Trainer where
  "cpu_trainer =
     \<lparr>local_rank = - 1, global_rank = 0, model = DDP demo_net, save_every = 1, epochs_run = 0,
      snapshot_path = ''snapshot_mnist.pt'', backend = ''gloo'', device = Cpu\<rparr>"

definition gpu_trainer :: Trainer where
  "gpu_trainer =
     \<lparr>local_rank = 0, global_rank = 0, model = DDP demo_net, save_every = 2, epochs_run = 0,
      snapshot_path = ''snapshot_mnist.pt'', backend = ''nccl'', device = Cuda 0\<rparr>"

section \<open>Predicates used in the statements\<close>

text \<open>
  Whether \<open>self.model\<close> is the wrapper, the network inside a module, and the state dict
  \<open>save_snapshot\<close> writes for a wrapped model.
\<close>

definition wrapped :: "module \<Rightarrow> bool" where
  "wrapped m = (case m of Bare n \<Rightarrow> False | DDP n \<Rightarrow> True)"

definition net_of :: "module \<Rightarrow> Net" where
  "net_of m = (case m of Bare n \<Rightarrow> n | DDP n \<Rightarrow> n)"

definition written_state :: "host \<Rightarrow> module \<Rightarrow> state_dict" where
  "written_state h m = (if cuda_is_available h then Net_state_dict (net_of m) else state_dict_of m)"

text \<open>
  The components of a path that are names of something (the empty ones dropped), and
  the snapshots the epoch loop writes on the process of global rank 0, in order: one
  after each epoch index divisible by \<open>save_every\<close>, holding the model as that epoch left
  it and the epoch index.
\<close>

definition names :: "string list \<Rightarrow> string list" where
  "names cs = filter (\<lambda>c. c \<noteq> []) cs"

fun snapshots_of :: "host \<Rightarrow> (int \<Rightarrow> Net \<Rightarrow> Net) \<Rightarrow> Trainer \<Rightarrow> int list \<Rightarrow> snapshot list" where
  "snapshots_of h fit t [] = []"
| "snapshots_of h fit t (e # es) =
     (if e mod save_every t = 0
      then [\<lparr>MODEL_STATE = written_state h (fit_module fit e (model t)), EPOCHS_RUN = e\<rparr>]
      else []) @ snapshots_of h fit (t\<lparr>model := fit_module fit e (model t)\<rparr>) es"

section \<open>Evaluation rules\<close>

lemmas run_defs = main_def subscript_def ddp_setup_def Trainer_init_def train_def py_range_def
  run_epoch_def save_snapshot_def load_snapshot_def environ_get_int_def environ_int_def py_int_def
  is_space_def digit_of_def dirname_def set_device_def init_process_group_def rendezvous_def
  destroy_process_group_def torch_device_cuda_def device_usable_def torch_load_def torch_save_def
  makedirs_def resolve_def start_of_def node_at_def step_def path_exists_def info_def warning_def
  process_start_def module_attr_def state_dict_of_def load_state_dict_def Net_load_state_dict_def
  Net_keys_def Net_state_dict_def copy_param_def fit_module_def upto.simps Let_def

lemmas demo_defs = demo_net_def demo_fit_def gpu_host_def cpu_host_def demo_parameters_def
  cpu_trainer_def gpu_trainer_def

section \<open>Splitting a path\<close>

text \<open>
  A path is its part up to the last slash followed by a last component without slash;
  \<open>dirname\<close> names the same directories as the components before the last one.
\<close>

lemma split_slash_not_Nil [simp]: "split_slash s \<noteq> []"
  by (induction s) (auto split: list.splits)

lemma split_slash_no_slash: "CHR ''/'' \<notin> set t \<Longrightarrow> split_slash t = [t]"
  by (induction t) auto

lemma split_slash_at_slash: "split_slash (a @ CHR ''/'' # b) = split_slash a @ split_slash b"
proof (induction a)
  case Nil
  show ?case by simp
next
  case (Cons x a)
  obtain y ys where "split_slash a = y # ys"
    by (cases "split_slash a") simp_all
  then show ?case
    using Cons by simp
qed

lemma rev_cut: "xs = rev (dropWhile P (rev xs)) @ rev (takeWhile P (rev xs))"
  by (metis rev_append rev_rev_ident takeWhile_dropWhile_id)


lemma names_all_slashes: "list_all (\<lambda>c. c = CHR ''/'') s \<Longrightarrow> names (split_slash s) = []"
  by (induction s) (auto simp: names_def)

lemma names_slash_suffix:
  "list_all (\<lambda>c. c = CHR ''/'') s \<Longrightarrow> names (split_slash (a @ s)) = names (split_slash a)"
proof (induction s arbitrary: a)
  case Nil
  then show ?case by simp
next
  case (Cons c s)
  then have c: "c = CHR ''/''" and s: "list_all (\<lambda>c. c = CHR ''/'') s" by simp_all
  have "names (split_slash (a @ c # s)) = names (split_slash a) @ names (split_slash s)"
    by (simp add: c split_slash_at_slash names_def)
  then show ?case
    using names_all_slashes [OF s] by simp
qed


lemma path_cut:
  fixes p :: string
  defines "hd_part \<equiv> rev (dropWhile (\<lambda>c. c \<noteq> CHR ''/'') (rev p))"
    and "tl_part \<equiv> rev (takeWhile (\<lambda>c. c \<noteq> CHR ''/'') (rev p))"
  shows "p = hd_part @ tl_part" and "CHR ''/'' \<notin> set tl_part"
    and "hd_part \<noteq> [] \<Longrightarrow> last hd_part = CHR ''/''"
proof -
  show "p = hd_part @ tl_part"
    unfolding hd_part_def tl_part_def by (rule rev_cut)
  show "CHR ''/'' \<notin> set tl_part"
    using set_takeWhileD [of "CHR ''/''" "\<lambda>c. c \<noteq> CHR ''/''" "rev p"] by (auto simp: tl_part_def)
  show "last hd_part = CHR ''/''" if "hd_part \<noteq> []"
  proof -
    have ne: "dropWhile (\<lambda>c. c \<noteq> CHR ''/'') (rev p) \<noteq> []"
      using that by (simp add: hd_part_def)
    have "hd (dropWhile (\<lambda>c. c \<noteq> CHR ''/'') (rev p)) = CHR ''/''"
      using hd_dropWhile [OF ne] by simp
    then show ?thesis
      using ne by (simp add: hd_part_def last_rev)
  qed
qed

lemma names_dirname:
  assumes "dirname p \<noteq> []"
  shows "names (split_slash (dirname p)) = names (butlast (split_slash p))"
    and "hd (dirname p) = hd p" and "p \<noteq> []"
proof -
  define h where "h = rev (dropWhile (\<lambda>c. c \<noteq> CHR ''/'') (rev p))"
  define t where "t = rev (takeWhile (\<lambda>c. c \<noteq> CHR ''/'') (rev p))"
  define d where "d = rev (dropWhile (\<lambda>c. c = CHR ''/'') (rev h))"
  define s where "s = rev (takeWhile (\<lambda>c. c = CHR ''/'') (rev h))"
  have dn: "dirname p = (if h \<noteq> [] \<and> \<not> list_all (\<lambda>c. c = CHR ''/'') h then d else h)"
    unfolding dirname_def h_def d_def Let_def ..
  have p: "p = h @ t" and t: "CHR ''/'' \<notin> set t"
    unfolding h_def t_def by (rule path_cut)+
  have hne: "h \<noteq> []"
    using assms dn by (cases "h = []") simp_all
  have lh: "last h = CHR ''/''"
    using hne unfolding h_def by (rule path_cut(3))
  define h' where "h' = butlast h"
  have "butlast h @ [last h] = h"
    using hne by simp
  then have h': "h = h' @ [CHR ''/'']"
    by (simp add: h'_def lh)
  have "split_slash p = split_slash (h' @ CHR ''/'' # t)"
    using p h' by simp
  also have "\<dots> = split_slash h' @ split_slash t"
    by (rule split_slash_at_slash)
  also have "\<dots> = split_slash h' @ [t]"
    using split_slash_no_slash [OF t] by simp
  finally have bl: "butlast (split_slash p) = split_slash h'"
    by simp
  show "p \<noteq> []"
    using p hne by simp
  have hs: "h = d @ s"
    unfolding d_def s_def by (rule rev_cut)
  have s_all: "list_all (\<lambda>c. c = CHR ''/'') s"
    unfolding s_def list_all_iff by (auto dest: set_takeWhileD)
  show "names (split_slash (dirname p)) = names (butlast (split_slash p))"
  proof (cases "list_all (\<lambda>c. c = CHR ''/'') h")
    case True
    then have "list_all (\<lambda>c. c = CHR ''/'') h'"
      unfolding h'_def list_all_iff by (blast dest: in_set_butlastD)
    then have "names (split_slash h') = []"
      by (rule names_all_slashes)
    moreover have "names (split_slash h) = []"
      using True by (rule names_all_slashes)
    moreover have "dirname p = h"
      using True dn by simp
    ultimately show ?thesis
      by (simp only: bl)
  next
    case False
    then have dd: "dirname p = d"
      using dn hne by simp
    have "rev h = CHR ''/'' # rev h'"
      using h' by simp
    then have "takeWhile (\<lambda>c. c = CHR ''/'') (rev h) \<noteq> []"
      by simp
    then have sne: "s \<noteq> []"
      by (simp add: s_def)
    define bs where "bs = butlast s"
    have "last s \<in> set s"
      using sne by simp
    then have "last s = CHR ''/''"
      using s_all by (simp add: list_all_iff)
    moreover have "butlast s @ [last s] = s"
      using sne by simp
    ultimately have sb: "bs @ [CHR ''/''] = s"
      by (simp add: bs_def)
    have "h = d @ (bs @ [CHR ''/''])"
      using hs by (simp only: sb)
    then have "h' @ [CHR ''/''] = (d @ bs) @ [CHR ''/'']"
      using h' by simp
    then have h'd: "h' = d @ butlast s"
      by (simp add: bs_def)
    have "list_all (\<lambda>c. c = CHR ''/'') (butlast s)"
      using s_all unfolding list_all_iff by (blast dest: in_set_butlastD)
    then have "names (split_slash (d @ butlast s)) = names (split_slash d)"
      by (rule names_slash_suffix)
    then show ?thesis
      by (simp only: dd bl h'd)
  qed
  show "hd (dirname p) = hd p"
  proof (cases "list_all (\<lambda>c. c = CHR ''/'') h")
    case True
    then have "dirname p = h"
      using dn by simp
    then show ?thesis
      using p hne by simp
  next
    case False
    then have dd: "dirname p = d"
      using dn hne by simp
    then have "d \<noteq> []"
      using assms by simp
    then have "hd h = hd d"
      using hs by simp
    moreover have "hd p = hd h"
      using p hne by simp
    ultimately show ?thesis
      by (simp only: dd)
  qed
qed

section \<open>Walking the file system\<close>

text \<open>
  When a path leads somewhere, the directories on the way exist, so creating its
  directory changes nothing; and writing a file where no directory is leaves every walk
  as it was.
\<close>

lemma names_Cons:
  "names ([] # cs) = names cs" "c \<noteq> [] \<Longrightarrow> names (c # cs) = c # names cs"
  by (simp_all add: names_def)

lemma all_empty_names: "list_all (\<lambda>x. x = []) (names cs) = list_all (\<lambda>x. x = []) cs"
  by (induction cs) (auto simp: names_def)

lemma mkdirs_skip:
  "c = [] \<or> c = ''.'' \<or> c = ''..'' \<Longrightarrow> mkdirs fs p cur (c # cs) = mkdirs fs p (step cur c) cs"
  by simp

lemma mkdirs_name:
  "\<not> (c = [] \<or> c = ''.'' \<or> c = ''..'') \<Longrightarrow>
   mkdirs fs p cur (c # cs) =
     (case node_at fs (cur @ [c]) of
        None \<Rightarrow> mkdirs (fs(cur @ [c] \<mapsto> Dir)) p (cur @ [c]) cs
      | Some Dir \<Rightarrow> mkdirs fs p (cur @ [c]) cs
      | Some Garbage \<Rightarrow>
          (Inl (if list_all (\<lambda>x. x = []) cs then FileExistsError p else NotADirectoryError p), fs)
      | Some (SnapshotFile sn) \<Rightarrow>
          (Inl (if list_all (\<lambda>x. x = []) cs then FileExistsError p else NotADirectoryError p), fs))"
  by simp

lemma walk_Dir: "node_at fs cur = Some Dir \<Longrightarrow> walk fs p cur (c # cs) = walk fs p (step cur c) cs"
  by simp

lemma mkdirs_names: "mkdirs fs p cur (names cs) = mkdirs fs p cur cs"
proof (induction cs arbitrary: fs cur)
  case Nil
  show ?case by (simp add: names_def)
next
  case (Cons c cs)
  show ?case
  proof (cases "c = []")
    case True
    have "mkdirs fs p cur (c # cs) = mkdirs fs p cur cs"
      using True by (simp add: step_def)
    then show ?thesis
      using Cons.IH [of fs cur] True by (simp only: names_Cons)
  next
    case False
    note nc = names_Cons(2) [OF False, of cs]
    show ?thesis
    proof (cases "c = ''.'' \<or> c = ''..''")
      case True
      then have sk: "c = [] \<or> c = ''.'' \<or> c = ''..''" by simp
      show ?thesis
        unfolding nc mkdirs_skip [OF sk] by (rule Cons.IH)
    next
      case False
      with \<open>c \<noteq> []\<close> have nm: "\<not> (c = [] \<or> c = ''.'' \<or> c = ''..'')" by simp
      show ?thesis
        unfolding nc mkdirs_name [OF nm] Cons.IH all_empty_names ..
    qed
  qed
qed

lemma walk_ConsD:
  assumes "walk fs p cur (c # cs) = Inr loc"
  shows "node_at fs cur = Some Dir" and "walk fs p (step cur c) cs = Inr loc"
proof -
  show d: "node_at fs cur = Some Dir"
  proof (cases "node_at fs cur")
    case None
    then show ?thesis using assms by simp
  next
    case (Some n)
    then show ?thesis using assms by (cases n) simp_all
  qed
  show "walk fs p (step cur c) cs = Inr loc"
    using assms unfolding walk_Dir [OF d] .
qed

lemma walk_nonempty_Dir:
  assumes "walk fs p cur cs = Inr loc" and "cs \<noteq> []"
  shows "node_at fs cur = Some Dir"
proof -
  obtain c cs' where "cs = c # cs'"
    using assms(2) by (cases cs) simp_all
  then show ?thesis
    using assms(1) walk_ConsD(1) by blast
qed

lemma walk_mkdirs_noop:
  "walk fs p cur (xs @ [y]) = Inr loc \<Longrightarrow> mkdirs fs q cur xs = (Inr (), fs)"
proof (induction xs arbitrary: cur)
  case Nil
  show ?case by simp
next
  case (Cons c xs)
  have w: "walk fs p (step cur c) (xs @ [y]) = Inr loc"
    using walk_ConsD(2) [of fs p cur c "xs @ [y]" loc] Cons.prems by simp
  have ih: "mkdirs fs q (step cur c) xs = (Inr (), fs)"
    using w by (rule Cons.IH)
  show ?case
  proof (cases "c = [] \<or> c = ''.'' \<or> c = ''..''")
    case True
    show ?thesis
      unfolding mkdirs_skip [OF True] by (rule ih)
  next
    case False
    then have st: "step cur c = cur @ [c]"
      by (simp add: step_def)
    have "walk fs p (cur @ [c]) (xs @ [y]) = Inr loc"
      using w st by simp
    then have "node_at fs (cur @ [c]) = Some Dir"
      by (rule walk_nonempty_Dir) simp
    then show ?thesis
      unfolding mkdirs_name [OF False] using ih st by simp
  qed
qed

lemma node_at_update:
  "node_at fs k \<noteq> Some Dir \<Longrightarrow> node_at (fs(k \<mapsto> n)) k = Some n"
  "k' \<noteq> k \<Longrightarrow> node_at (fs(k \<mapsto> n)) k' = node_at fs k'"
  by (auto simp: node_at_def split: if_splits)

lemma walk_update:
  "walk fs p cur cs = Inr loc \<Longrightarrow> node_at fs k \<noteq> Some Dir \<Longrightarrow>
   walk (fs(k \<mapsto> SnapshotFile sn)) p cur cs = Inr loc"
proof (induction cs arbitrary: cur)
  case Nil
  then show ?case by simp
next
  case (Cons c cs)
  have d: "node_at fs cur = Some Dir" and w: "walk fs p (step cur c) cs = Inr loc"
    using walk_ConsD [OF Cons.prems(1)] by simp_all
  have "cur \<noteq> k"
    using d Cons.prems(2) by auto
  then have "node_at (fs(k \<mapsto> SnapshotFile sn)) cur = Some Dir"
    using d by (simp add: node_at_update)
  then have "walk (fs(k \<mapsto> SnapshotFile sn)) p cur (c # cs) =
      walk (fs(k \<mapsto> SnapshotFile sn)) p (step cur c) cs"
    by (rule walk_Dir)
  also have "\<dots> = Inr loc"
    using w Cons.prems(2) by (rule Cons.IH)
  finally show ?case .
qed

lemma resolve_update:
  "resolve h fs p = Inr loc \<Longrightarrow> node_at fs k \<noteq> Some Dir \<Longrightarrow>
   resolve h (fs(k \<mapsto> SnapshotFile sn)) p = Inr loc"
  by (auto simp: resolve_def walk_update split: if_splits)

lemma makedirs_noop:
  assumes "resolve h (files w) path = Inr loc" and "dirname path \<noteq> []"
  shows "makedirs h (dirname path) w = (Inr (), w)"
proof -
  have ne: "path \<noteq> []" and hd: "hd (dirname path) = hd path"
    and nm: "names (split_slash (dirname path)) = names (butlast (split_slash path))"
    using names_dirname [OF assms(2)] by simp_all
  have st: "start_of h (dirname path) = start_of h path"
    using ne assms(2) hd by (cases path; cases "dirname path") (simp_all add: start_of_def)
  have sp: "split_slash path = butlast (split_slash path) @ [last (split_slash path)]"
    by simp
  have wk: "walk (files w) path (start_of h path) (butlast (split_slash path) @ [last (split_slash path)]) = Inr loc"
    using assms(1) ne sp by (simp add: resolve_def)
  have root: "node_at (files w) (start_of h path) = Some Dir"
    using wk by (rule walk_nonempty_Dir) simp
  have "mkdirs (files w) (dirname path) (start_of h path) (butlast (split_slash path)) = (Inr (), files w)"
    using wk by (rule walk_mkdirs_noop)
  then have "mkdirs (files w) (dirname path) (start_of h path) (split_slash (dirname path)) = (Inr (), files w)"
    using mkdirs_names [of "files w" "dirname path" "start_of h path" "split_slash (dirname path)"]
      mkdirs_names [of "files w" "dirname path" "start_of h path" "butlast (split_slash path)"]
    by (simp only: nm)
  then show ?thesis
    using assms(2) root by (simp add: makedirs_def st)
qed

section \<open>The epoch loop, step by step\<close>

text \<open>
  A wrapped model stays wrapped, and saving from a wrapped model to a path that leads
  into a directory succeeds. On the process of global rank 0 the loop then returns, and
  the Trainer, the snapshots written, the file system and the epochs run have a closed
  form; on the other processes nothing is written.
\<close>


lemma wrapped_fit_module [simp]: "wrapped (fit_module fit e m) = wrapped m"
  by (simp add: wrapped_def fit_module_def split: module.splits)

lemma wrapped_DDP [simp]: "wrapped (DDP n)" "\<not> wrapped (Bare n)"
  by (simp_all add: wrapped_def)

lemma torch_save_ok:
  assumes "resolve h (files w) path = Inr loc" and "node_at (files w) loc \<noteq> Some Dir"
  shows "torch_save h sn path w =
     (Inr (), w\<lparr>files := (files w)(loc \<mapsto> SnapshotFile sn), saved := saved w @ [sn]\<rparr>)"
proof (cases "node_at (files w) loc")
  case None
  then show ?thesis using assms(1) by (simp add: torch_save_def)
next
  case (Some n)
  then show ?thesis using assms by (cases n) (simp_all add: torch_save_def)
qed

lemma save_snapshot_wrapped:
  assumes "wrapped (model t)" and "resolve h (files w) (snapshot_path t) = Inr loc"
    and "node_at (files w) loc \<noteq> Some Dir"
  shows "save_snapshot h t e w =
     (Inr (), info (SnapshotSaved e (snapshot_path t))
        (w\<lparr>files := (files w)(loc \<mapsto> SnapshotFile \<lparr>MODEL_STATE = written_state h (model t), EPOCHS_RUN = e\<rparr>),
           saved := saved w @ [\<lparr>MODEL_STATE = written_state h (model t), EPOCHS_RUN = e\<rparr>]\<rparr>))"
proof -
  obtain n where n: "model t = DDP n"
    using assms(1) by (cases "model t") simp_all
  show ?thesis
    using torch_save_ok [OF assms(2) assms(3)]
    by (simp add: save_snapshot_def n module_attr_def written_state_def net_of_def)
qed

lemma run_epoch_fst: "fst (run_epoch fit h t e b w) = t\<lparr>model := fit_module fit e (model t)\<rparr>"
  by (simp add: run_epoch_def Let_def)

lemma run_epoch_snd:
  "snd (run_epoch fit h t e b w) =
     w\<lparr>logged := logged w @ [(INFO, EpochStart (cuda_is_available h \<and> b = ''nccl'') (global_rank t) e)],
       epochs_executed := epochs_executed w @ [e]\<rparr>"
  by (simp add: run_epoch_def Let_def info_def)

lemma train_loop_Cons:
  "train_loop fit h b t (e # es) w =
     (let t1 = fst (run_epoch fit h t e b w); w1 = snd (run_epoch fit h t e b w) in
      if global_rank t1 = 0 then
        (if save_every t1 = 0 then (Inl ZeroDivisionError, w1)
         else if e mod save_every t1 = 0 then
           (case save_snapshot h t1 e w1 of
              (Inl x, w2) \<Rightarrow> (Inl x, w2)
            | (Inr u, w2) \<Rightarrow> train_loop fit h b t1 es w2)
         else train_loop fit h b t1 es w1)
      else train_loop fit h b t1 es w1)"
  by (cases "run_epoch fit h t e b w") (simp add: Let_def)

lemma torch_save_destroy_calls: "destroy_calls (snd (torch_save h sn path w)) = destroy_calls w"
  by (simp add: torch_save_def split: sum.splits option.splits node.splits)

lemma save_snapshot_destroy_calls: "destroy_calls (snd (save_snapshot h t e w)) = destroy_calls w"
  by (simp add: save_snapshot_def info_def case_prod_beta torch_save_destroy_calls
      split: sum.splits)

lemma train_loop_destroy_calls:
  "destroy_calls (snd (train_loop fit h b t es w)) = destroy_calls w"
proof (induction es arbitrary: t w)
  case Nil
  show ?case by simp
next
  case (Cons e es)
  let ?t1 = "fst (run_epoch fit h t e b w)"
  let ?w1 = "snd (run_epoch fit h t e b w)"
  have w1: "destroy_calls ?w1 = destroy_calls w"
    by (simp add: run_epoch_snd)
  have sv: "destroy_calls (snd (save_snapshot h ?t1 e ?w1)) = destroy_calls w"
    using save_snapshot_destroy_calls [of h ?t1 e ?w1] w1 by simp
  show ?case
  proof (cases "save_snapshot h ?t1 e ?w1")
    case (Pair r w2)
    then have w2: "destroy_calls w2 = destroy_calls w"
      using sv by simp
    show ?thesis
      unfolding train_loop_Cons Let_def
      by (cases r) (simp_all add: Pair w1 w2 Cons.IH)
  qed
qed

lemma train_loop_rank0:
  assumes "wrapped (model t)" and "global_rank t = 0" and "save_every t \<noteq> 0"
    and "resolve h (files w) (snapshot_path t) = Inr loc" and "node_at (files w) loc \<noteq> Some Dir"
  shows "fst (train_loop fit h b t es w) = Inr (t\<lparr>model := fold (fit_module fit) es (model t)\<rparr>)
       \<and> saved (snd (train_loop fit h b t es w)) = saved w @ snapshots_of h fit t es
       \<and> files (snd (train_loop fit h b t es w)) =
           (if snapshots_of h fit t es = [] then files w
            else (files w)(loc \<mapsto> SnapshotFile (last (snapshots_of h fit t es))))
       \<and> epochs_executed (snd (train_loop fit h b t es w)) = epochs_executed w @ es"
  using assms
proof (induction es arbitrary: t w)
  case Nil
  show ?case by simp
next
  case (Cons e es)
  define t1 where "t1 = t\<lparr>model := fit_module fit e (model t)\<rparr>"
  define w1 where "w1 = snd (run_epoch fit h t e b w)"
  define rest where "rest = snapshots_of h fit t1 es"
  define sn where "sn = \<lparr>MODEL_STATE = written_state h (model t1), EPOCHS_RUN = e\<rparr>"
  define w2 where "w2 = info (SnapshotSaved e (snapshot_path t1))
      (w1\<lparr>files := (files w1)(loc \<mapsto> SnapshotFile sn), saved := saved w1 @ [sn]\<rparr>)"
  have t1: "wrapped (model t1)" "global_rank t1 = 0" "save_every t1 \<noteq> 0"
    using Cons.prems by (simp_all add: t1_def)
  have path1: "snapshot_path t1 = snapshot_path t"
    by (simp add: t1_def)
  have w1: "files w1 = files w" "saved w1 = saved w" "epochs_executed w1 = epochs_executed w @ [e]"
    by (simp_all add: w1_def run_epoch_snd)
  have tr: "t1\<lparr>model := fold (fit_module fit) es (model t1)\<rparr> =
      t\<lparr>model := fold (fit_module fit) (e # es) (model t)\<rparr>"
    by (simp add: t1_def)
  have r1: "resolve h (files w1) (snapshot_path t1) = Inr loc"
    and n1: "node_at (files w1) loc \<noteq> Some Dir"
    using Cons.prems(4,5) by (simp_all add: w1 path1)
  have loop: "train_loop fit h b t (e # es) w =
      (if e mod save_every t = 0
       then (case save_snapshot h t1 e w1 of
               (Inl x, w') \<Rightarrow> (Inl x, w')
             | (Inr u, w') \<Rightarrow> train_loop fit h b t1 es w')
       else train_loop fit h b t1 es w1)"
    unfolding t1_def w1_def using Cons.prems(2,3)
    by (simp add: train_loop_Cons Let_def run_epoch_fst del: train_loop.simps)
  show ?case
  proof (cases "e mod save_every t = 0")
    case True
    have sv: "save_snapshot h t1 e w1 = (Inr (), w2)"
      unfolding w2_def sn_def using t1(1) r1 n1 by (rule save_snapshot_wrapped)
    have step: "train_loop fit h b t (e # es) w = train_loop fit h b t1 es w2"
      using True by (simp add: loop sv del: train_loop.simps)
    have f2: "files w2 = (files w)(loc \<mapsto> SnapshotFile sn)"
      and s2: "saved w2 = saved w @ [sn]" and e2: "epochs_executed w2 = epochs_executed w @ [e]"
      by (simp_all add: w2_def info_def w1)
    have r2: "resolve h (files w2) (snapshot_path t1) = Inr loc"
      unfolding f2 path1 using Cons.prems(4,5) by (rule resolve_update)
    have n2: "node_at (files w2) loc \<noteq> Some Dir"
      unfolding f2 using Cons.prems(5) by (simp add: node_at_update)
    have ih: "fst (train_loop fit h b t1 es w2) = Inr (t1\<lparr>model := fold (fit_module fit) es (model t1)\<rparr>)
       \<and> saved (snd (train_loop fit h b t1 es w2)) = saved w2 @ snapshots_of h fit t1 es
       \<and> files (snd (train_loop fit h b t1 es w2)) =
           (if snapshots_of h fit t1 es = [] then files w2
            else (files w2)(loc \<mapsto> SnapshotFile (last (snapshots_of h fit t1 es))))
       \<and> epochs_executed (snd (train_loop fit h b t1 es w2)) = epochs_executed w2 @ es"
      using t1 r2 n2 by (rule Cons.IH)
    have so: "snapshots_of h fit t (e # es) = sn # rest"
      using True by (simp add: sn_def rest_def t1_def)
    show ?thesis
      unfolding step so using ih unfolding rest_def [symmetric] tr f2 s2 e2
      by (auto simp add: fun_upd_def)
  next
    case False
    have step: "train_loop fit h b t (e # es) w = train_loop fit h b t1 es w1"
      using False by (simp add: loop del: train_loop.simps)
    have ih: "fst (train_loop fit h b t1 es w1) = Inr (t1\<lparr>model := fold (fit_module fit) es (model t1)\<rparr>)
       \<and> saved (snd (train_loop fit h b t1 es w1)) = saved w1 @ snapshots_of h fit t1 es
       \<and> files (snd (train_loop fit h b t1 es w1)) =
           (if snapshots_of h fit t1 es = [] then files w1
            else (files w1)(loc \<mapsto> SnapshotFile (last (snapshots_of h fit t1 es))))
       \<and> epochs_executed (snd (train_loop fit h b t1 es w1)) = epochs_executed w1 @ es"
      using t1 r1 n1 by (rule Cons.IH)
    have so: "snapshots_of h fit t (e # es) = rest"
      using False by (simp add: rest_def t1_def)
    show ?thesis
      unfolding step so using ih unfolding rest_def [symmetric] tr w1 by simp
  qed
qed

lemma train_loop_other_rank:
  assumes "global_rank t \<noteq> 0"
  shows "fst (train_loop fit h b t es w) = Inr (t\<lparr>model := fold (fit_module fit) es (model t)\<rparr>)
       \<and> saved (snd (train_loop fit h b t es w)) = saved w
       \<and> files (snd (train_loop fit h b t es w)) = files w
       \<and> epochs_executed (snd (train_loop fit h b t es w)) = epochs_executed w @ es"
  using assms
proof (induction es arbitrary: t w)
  case Nil
  show ?case by simp
next
  case (Cons e es)
  let ?t1 = "t\<lparr>model := fit_module fit e (model t)\<rparr>"
  let ?w1 = "snd (run_epoch fit h t e b w)"
  have t1: "global_rank ?t1 \<noteq> 0"
    using Cons.prems by simp
  have step: "train_loop fit h b t (e # es) w = train_loop fit h b ?t1 es ?w1"
    using Cons.prems by (simp add: train_loop_Cons Let_def run_epoch_fst del: train_loop.simps)
  show ?case
    unfolding step using Cons.IH [OF t1, of ?w1] by (simp add: run_epoch_snd)
qed

lemma snapshots_of_epochs:
  "map EPOCHS_RUN (snapshots_of h fit t es) = filter (\<lambda>e. e mod save_every t = 0) es"
  by (induction es arbitrary: t) simp_all


section \<open>Epoch indices with a snapshot, and what setup and construction leave untouched\<close>


lemma sorted_le_last: "sorted xs \<Longrightarrow> x \<in> set xs \<Longrightarrow> x \<le> last xs"
  by (induction xs) auto

lemma sorted_filter_upto: "sorted (filter P [i..j])"
  by (rule sorted_wrt_filter) (rule sorted_upto)

lemma last_snapshot_epoch:
  fixes s N :: int
  assumes "0 < s" "0 < N"
  shows "filter (\<lambda>e. e mod s = 0) [0..N - 1] \<noteq> []"
    and "last (filter (\<lambda>e. e mod s = 0) [0..N - 1]) \<le> N"
    and "(N - 1) div s * s \<le> last (filter (\<lambda>e. e mod s = 0) [0..N - 1])"
proof -
  let ?ks = "filter (\<lambda>e. e mod s = 0) [0..N - 1]"
  have zero: "0 \<in> set ?ks" using assms by simp
  then have "0 < length ?ks" by (rule length_pos_if_in_set)
  then show ne: "?ks \<noteq> []" by (metis length_greater_0_conv)
  have "last ?ks \<in> set ?ks" using ne by (rule last_in_set)
  then show "last ?ks \<le> N" by simp
  have "0 \<le> (N - 1) div s" using assms by (simp add: pos_imp_zdiv_nonneg_iff)
  then have lo: "0 \<le> (N - 1) div s * s" using assms by simp
  have hi: "(N - 1) div s * s \<le> N - 1"
    using assms by (metis div_mult_mod_eq le_add_same_cancel1 pos_mod_sign)
  have "(N - 1) div s * s \<in> set ?ks" using lo hi by simp
  then show "(N - 1) div s * s \<le> last ?ks"
    by (rule sorted_le_last [OF sorted_filter_upto])
qed

lemma card_epochs:
  "card {e. 0 \<le> e \<and> e < epochs \<and> e mod s = 0} = length (filter (\<lambda>e. e mod s = (0::int)) [0..epochs - 1])"
proof -
  have "{e. 0 \<le> e \<and> e < epochs \<and> e mod s = 0} = set (filter (\<lambda>e. e mod s = 0) [0..epochs - 1])"
    by auto
  moreover have "card (set (filter (\<lambda>e. e mod s = 0) [0..epochs - 1]))
      = length (filter (\<lambda>e. e mod s = 0) [0..epochs - 1])"
    by (rule distinct_card) simp
  ultimately show ?thesis
    by (simp only:)
qed


lemma files_info [simp]: "files (info m w) = files w"
  by (simp add: info_def)

lemma set_device_frame:
  "files (snd (set_device h d w)) = files w"
  "epochs_executed (snd (set_device h d w)) = epochs_executed w"
  "saved (snd (set_device h d w)) = saved w"
  "destroy_calls (snd (set_device h d w)) = destroy_calls w"
  by (simp_all add: set_device_def)

lemma init_process_group_frame:
  "files (snd (init_process_group h b w)) = files w"
  "epochs_executed (snd (init_process_group h b w)) = epochs_executed w"
  "saved (snd (init_process_group h b w)) = saved w"
  "destroy_calls (snd (init_process_group h b w)) = destroy_calls w"
  by (simp_all add: init_process_group_def split: option.splits sum.splits)

lemma ddp_setup_frame:
  "files (snd (ddp_setup h b w)) = files w"
  "epochs_executed (snd (ddp_setup h b w)) = epochs_executed w"
  "saved (snd (ddp_setup h b w)) = saved w"
  "destroy_calls (snd (ddp_setup h b w)) = destroy_calls w"
  by (simp_all add: ddp_setup_def case_prod_beta set_device_frame init_process_group_frame
      info_def warning_def split: sum.splits)

lemma init_process_group_no_rank:
  "RANK h = None \<Longrightarrow> fst (init_process_group h b w) \<noteq> Inr u"
  by (simp add: init_process_group_def rendezvous_def split: option.splits)

lemma ddp_setup_no_rank:
  "RANK h = None \<Longrightarrow> fst (ddp_setup h b w) \<noteq> Inr u"
  by (simp add: ddp_setup_def case_prod_beta init_process_group_no_rank split: sum.splits)

lemma makedirs_frame:
  "epochs_executed (snd (makedirs h d w)) = epochs_executed w"
  "saved (snd (makedirs h d w)) = saved w"
  "destroy_calls (snd (makedirs h d w)) = destroy_calls w"
  by (simp_all add: makedirs_def case_prod_beta split: option.splits node.splits)

lemma load_snapshot_frame:
  "files (snd (load_snapshot h t p w)) = files w"
  "epochs_executed (snd (load_snapshot h t p w)) = epochs_executed w"
  "saved (snd (load_snapshot h t p w)) = saved w"
  "destroy_calls (snd (load_snapshot h t p w)) = destroy_calls w"
  by (simp_all add: load_snapshot_def info_def split: sum.splits)

lemma Trainer_init_frame:
  "epochs_executed (snd (Trainer_init h net s path b w)) = epochs_executed w"
  "saved (snd (Trainer_init h net s path b w)) = saved w"
  "destroy_calls (snd (Trainer_init h net s path b w)) = destroy_calls w"
  by (simp_all add: Trainer_init_def Let_def case_prod_beta makedirs_frame load_snapshot_frame
      info_def split: sum.splits module.splits)

lemma Trainer_init_result:
  assumes "Trainer_init h net s path b w0 = (Inr t, w)"
  shows "wrapped (model t)" and "save_every t = s" and "snapshot_path t = path"
    and "\<not> path_exists h (files w) path \<Longrightarrow> epochs_run t = 0"
  using assms
  by (auto simp add: Trainer_init_def Let_def load_snapshot_def
      split: sum.splits module.splits prod.splits if_splits)

section \<open>Construction with and without a snapshot file\<close>

lemma ensure_dir_noop:
  assumes "resolve h (files w) path = Inr loc"
  shows "(if dirname path \<noteq> [] then makedirs h (dirname path) (info m w) else (Inr (), info m w))
         = (Inr (), info m w)"
proof (cases "dirname path = []")
  case True
  then show ?thesis by simp
next
  case False
  have "resolve h (files (info m w)) path = Inr loc"
    using assms by simp
  then have "makedirs h (dirname path) (info m w) = (Inr (), info m w)"
    using False by (rule makedirs_noop)
  then show ?thesis
    using False by simp
qed

lemma path_exists_iff:
  "resolve h fs path = Inr loc \<Longrightarrow> path_exists h fs path = (node_at fs loc \<noteq> None)"
  by (simp add: path_exists_def split: option.splits)


lemma Net_mismatch:
  "Net_load_state_dict [] n (state_dict_of (DDP n')) =
     Inl (StateDictMismatch Net_keys (map (\<lambda>k. ''module.'' @ k) Net_keys))"
  by (simp add: Net_load_state_dict_def Net_state_dict_def Net_keys_def state_dict_of_def Let_def)



lemma Trainer_init_mismatch:
  assumes "\<not> cuda_is_available h" and "resolve h (files w) path = Inr loc"
    and "node_at (files w) loc = Some (SnapshotFile \<lparr>MODEL_STATE = state_dict_of (DDP n), EPOCHS_RUN = k\<rparr>)"
    and "environ_get_int (LOCAL_RANK h) (- 1) = Inr lr"
    and "environ_int ''RANK'' (RANK h) = Inr gr"
  shows "fst (Trainer_init h net s path b w) =
     Inl (StateDictMismatch Net_keys (map (\<lambda>k. ''module.'' @ k) Net_keys))"
proof -
  have ex: "path_exists h (files w) path"
    using assms(2,3) by (simp add: path_exists_iff)
  show ?thesis
    using assms
    by (simp add: Trainer_init_def Let_def device_usable_def
        load_snapshot_def torch_load_def load_state_dict_def Net_mismatch
        ensure_dir_noop [OF assms(2)] ex)
qed

lemma save_snapshot_success:
  assumes "save_snapshot h t e w = (Inr (), w1)" and "\<not> cuda_is_available h"
  shows "\<exists>loc. resolve h (files w) (snapshot_path t) = Inr loc
           \<and> node_at (files w) loc \<noteq> Some Dir
           \<and> files w1 = (files w)(loc \<mapsto> SnapshotFile \<lparr>MODEL_STATE = state_dict_of (model t), EPOCHS_RUN = e\<rparr>)"
proof -
  let ?sn = "\<lparr>MODEL_STATE = state_dict_of (model t), EPOCHS_RUN = e\<rparr>"
  obtain r w' where ts: "torch_save h ?sn (snapshot_path t) w = (r, w')"
    by (cases "torch_save h ?sn (snapshot_path t) w")
  have r: "r = Inr ()" and w1: "w1 = info (SnapshotSaved e (snapshot_path t)) w'"
    using assms ts by (auto simp add: save_snapshot_def split: sum.splits)
  obtain loc where loc: "resolve h (files w) (snapshot_path t) = Inr loc"
    using ts r by (cases "resolve h (files w) (snapshot_path t)") (simp_all add: torch_save_def)
  have nd: "node_at (files w) loc \<noteq> Some Dir"
    using ts r loc by (auto simp add: torch_save_def)
  have "w' = w\<lparr>files := (files w)(loc \<mapsto> SnapshotFile ?sn), saved := saved w @ [?sn]\<rparr>"
    using torch_save_ok [OF loc nd, of ?sn] ts by simp
  then have "files w1 = (files w)(loc \<mapsto> SnapshotFile ?sn)"
    by (simp add: w1)
  then show ?thesis
    using loc nd by blast
qed

section \<open>The stored epoch counter\<close>

text \<open>
  C1. The claim: a snapshot written after epoch \<open>e\<close> stores \<open>epochs_run = e + 1\<close>, so that
  a resume neither repeats nor skips an epoch. The code stores the epoch index itself.
  On a one-device accelerator host, rank 0, three epochs with a snapshot after each:
  the epochs run are 0, 1, 2 and the stored counters are 0, 1, 2 (the last one 2, not 3);
  a second process asked for four epochs then runs epochs 2 and 3, so epoch 2 runs twice.
\<close>

theorem epochs_run_stored_eval:
  "epochs_executed (snd (main demo_fit demo_net (gpu_host (Some ''0'') 1)
      (demo_parameters 3 1 ''nccl'') (process_start Map.empty))) = [0, 1, 2]
   \<and> map EPOCHS_RUN (saved (snd (main demo_fit demo_net (gpu_host (Some ''0'') 1)
      (demo_parameters 3 1 ''nccl'') (process_start Map.empty)))) = [0, 1, 2]
   \<and> epochs_executed (snd (main demo_fit demo_net (gpu_host (Some ''0'') 1)
      (demo_parameters 4 1 ''nccl'')
      (process_start (files (snd (main demo_fit demo_net (gpu_host (Some ''0'') 1)
         (demo_parameters 3 1 ''nccl'') (process_start Map.empty))))))) = [2, 3]"
  by (simp add: run_defs demo_defs)

section \<open>Resuming\<close>




section \<open>Number of snapshot writes\<close>

text \<open>
  C3. For \<open>0 < save_every \<le> epochs\<close> and a Trainer constructed with a snapshot path
  that leads into a directory and names nothing (no prior snapshot), \<open>train\<close> returns,
  and the number of snapshots written is the number of epoch indices \<open>e\<close> in
  \<open>[0, epochs)\<close> with \<open>e mod save_every = 0\<close> on the process of global rank 0, where the
  file at the path then holds the last of them, and zero on every other process, which
  leaves the file system as it was.
\<close>

theorem snapshot_write_count:
  assumes "0 < s" and "s \<le> epochs"
    and "Trainer_init h net s path b w0 = (Inr t, w)"
    and "resolve h (files w) path = Inr loc" and "node_at (files w) loc = None"
  shows "(\<exists>t'. fst (train fit h t epochs b' w) = Inr t')
       \<and> length (saved (snd (train fit h t epochs b' w))) =
           length (saved w0) +
           (if global_rank t = 0 then card {e. 0 \<le> e \<and> e < epochs \<and> e mod s = 0} else 0)
       \<and> (if global_rank t = 0
           then node_at (files (snd (train fit h t epochs b' w))) loc =
                  Some (SnapshotFile (last (saved (snd (train fit h t epochs b' w)))))
           else files (snd (train fit h t epochs b' w)) = files w)"
proof -
  have t: "wrapped (model t)" "save_every t = s" "snapshot_path t = path"
    using Trainer_init_result(1-3) [OF assms(3)] by simp_all
  have "\<not> path_exists h (files w) path"
    using assms(4,5) by (simp add: path_exists_iff)
  then have run: "epochs_run t = 0"
    by (rule Trainer_init_result(4) [OF assms(3)])
  have w: "saved w = saved w0"
    using Trainer_init_frame(2) [of h net s path b w0] assms(3) by simp
  have tr: "train fit h t epochs b' w = train_loop fit h b' t [0..epochs - 1] w"
    by (simp add: train_def py_range_def run)
  show ?thesis
  proof (cases "global_rank t = 0")
    case True
    let ?snaps = "snapshots_of h fit t [0..epochs - 1]"
    have nz: "save_every t \<noteq> 0"
      using t(2) assms(1) by simp
    have r: "resolve h (files w) (snapshot_path t) = Inr loc"
      using assms(4) t(3) by simp
    have nd: "node_at (files w) loc \<noteq> Some Dir"
      using assms(5) by simp
    note loop = train_loop_rank0 [OF t(1) True nz r nd, of fit b' "[0..epochs - 1]"]
    have ep: "map EPOCHS_RUN ?snaps = filter (\<lambda>e. e mod s = 0) [0..epochs - 1]"
      using snapshots_of_epochs [of h fit t "[0..epochs - 1]"] t(2) by simp
    have "0 < epochs"
      using assms(1,2) by simp
    then have "filter (\<lambda>e. e mod s = 0) [0..epochs - 1] \<noteq> []"
      using last_snapshot_epoch(1) [OF assms(1)] by simp
    then have ne: "?snaps \<noteq> []"
      using ep by auto
    have len: "length ?snaps = card {e. 0 \<le> e \<and> e < epochs \<and> e mod s = 0}"
      using ep card_epochs [of epochs s] by (metis length_map)
    have locne: "loc \<noteq> []"
      using assms(5) by (auto simp: node_at_def)
    have "files (snd (train fit h t epochs b' w)) = (files w)(loc \<mapsto> SnapshotFile (last ?snaps))"
      using loop ne by (simp add: tr)
    then have at_loc: "node_at (files (snd (train fit h t epochs b' w))) loc = Some (SnapshotFile (last ?snaps))"
      using locne by (simp add: node_at_def)
    have sv: "saved (snd (train fit h t epochs b' w)) = saved w @ ?snaps"
      using loop by (simp add: tr)
    have "fst (train fit h t epochs b' w) = Inr (t\<lparr>model := fold (fit_module fit) [0..epochs - 1] (model t)\<rparr>)"
      using loop by (simp add: tr)
    then show ?thesis
      using True at_loc sv ne len by (simp add: w)
  next
    case False
    note loop = train_loop_other_rank [OF False, of fit h b' "[0..epochs - 1]" w]
    show ?thesis
      using False loop by (simp add: tr w)
  qed
qed

theorem snapshot_write_count_witness:
  "(0::int) < 2 \<and> (2::int) \<le> 3
   \<and> Trainer_init (gpu_host (Some ''0'') 1) demo_net 2 ''snapshot_mnist.pt'' ''nccl''
        (process_start Map.empty)
      = (Inr gpu_trainer, info (UsingDevice (Cuda 0)) (process_start Map.empty))
   \<and> resolve (gpu_host (Some ''0'') 1) (files (info (UsingDevice (Cuda 0)) (process_start Map.empty)))
        ''snapshot_mnist.pt'' = Inr [''snapshot_mnist.pt'']
   \<and> node_at (files (info (UsingDevice (Cuda 0)) (process_start Map.empty))) [''snapshot_mnist.pt''] = None
   \<and> (\<exists>t'. fst (train demo_fit (gpu_host (Some ''0'') 1) gpu_trainer 3 ''nccl''
                  (info (UsingDevice (Cuda 0)) (process_start Map.empty))) = Inr t')
   \<and> length (saved (snd (train demo_fit (gpu_host (Some ''0'') 1) gpu_trainer 3 ''nccl''
                  (info (UsingDevice (Cuda 0)) (process_start Map.empty))))) =
       length (saved (process_start Map.empty)) +
       (if global_rank gpu_trainer = 0 then card {e. 0 \<le> e \<and> e < 3 \<and> e mod 2 = (0::int)} else 0)
   \<and> (if global_rank gpu_trainer = 0
       then node_at (files (snd (train demo_fit (gpu_host (Some ''0'') 1) gpu_trainer 3 ''nccl''
                  (info (UsingDevice (Cuda 0)) (process_start Map.empty))))) [''snapshot_mnist.pt''] =
              Some (SnapshotFile (last (saved (snd (train demo_fit (gpu_host (Some ''0'') 1) gpu_trainer 3 ''nccl''
                  (info (UsingDevice (Cuda 0)) (process_start Map.empty)))))))
       else files (snd (train demo_fit (gpu_host (Some ''0'') 1) gpu_trainer 3 ''nccl''
                  (info (UsingDevice (Cuda 0)) (process_start Map.empty))))
            = files (info (UsingDevice (Cuda 0)) (process_start Map.empty)))"
proof -
  have h1: "(0::int) < 2" and h2: "(2::int) \<le> 3"
    by simp_all
  have h3: "Trainer_init (gpu_host (Some ''0'') 1) demo_net 2 ''snapshot_mnist.pt'' ''nccl''
        (process_start Map.empty)
      = (Inr gpu_trainer, info (UsingDevice (Cuda 0)) (process_start Map.empty))"
    by (simp add: run_defs demo_defs)
  have h4: "resolve (gpu_host (Some ''0'') 1) (files (info (UsingDevice (Cuda 0)) (process_start Map.empty)))
        ''snapshot_mnist.pt'' = Inr [''snapshot_mnist.pt'']"
    by (simp add: run_defs demo_defs)
  have h5: "node_at (files (info (UsingDevice (Cuda 0)) (process_start Map.empty))) [''snapshot_mnist.pt''] = None"
    by (simp add: run_defs demo_defs)
  show ?thesis
    using h3 h4 h5 snapshot_write_count [OF h1 h2 h3 h4 h5, of demo_fit "''nccl''"]
    by simp
qed

section \<open>Local rank\<close>

text \<open>
  C4. The claim: with the local-rank variable absent, the resolved local rank is 0 both in
  \<open>ddp_setup\<close> and in the Trainer. \<open>ddp_setup\<close> defaults to 0 and binds device 0; the
  Trainer defaults to \<open>- 1\<close>. On an accelerator host with the nccl backend the Trainer
  then asks for the device \<^verbatim>\<open>cuda:-1\<close> and construction fails; on a host without
  accelerator construction succeeds with \<open>local_rank = - 1\<close>.
\<close>

theorem local_rank_default_eval:
  "current_device (snd (ddp_setup (gpu_host None 1) ''nccl'' (process_start Map.empty))) = Some 0
   \<and> fst (Trainer_init (gpu_host None 1) demo_net 1 ''snapshot_mnist.pt'' ''nccl''
        (process_start Map.empty)) = Inl (InvalidDeviceString (- 1))
   \<and> map_sum id local_rank
        (fst (Trainer_init (cpu_host (Some ''0'')) demo_net 1 ''snapshot_mnist.pt'' ''nccl''
          (process_start Map.empty))) = Inr (- 1)"
  by (simp add: run_defs demo_defs)

text \<open>
  C5. The claim: a local rank at or above the device count is clamped to device 0 with a
  warning, and the Trainer binds the model and the wrapper to a valid device. With local
  rank 3 on a two-device host, \<open>ddp_setup\<close> warns and binds device 0, but the Trainer
  uses the unclamped value: it logs the device \<^verbatim>\<open>cuda:3\<close> and moving the model there
  fails with an invalid ordinal.
\<close>

theorem local_rank_clamp_eval:
  "logged (snd (ddp_setup (gpu_host (Some ''3'') 2) ''nccl'' (process_start Map.empty)))
     = [(WARNING, InvalidOrdinal 3)]
   \<and> current_device (snd (ddp_setup (gpu_host (Some ''3'') 2) ''nccl'' (process_start Map.empty)))
     = Some 0
   \<and> fst (Trainer_init (gpu_host (Some ''3'') 2) demo_net 1 ''snapshot_mnist.pt'' ''nccl''
        (process_start Map.empty)) = Inl (InvalidDeviceOrdinal 3)
   \<and> logged (snd (Trainer_init (gpu_host (Some ''3'') 2) demo_net 1 ''snapshot_mnist.pt'' ''nccl''
        (process_start Map.empty))) = [(INFO, UsingDevice (Cuda 3))]"
  by (simp add: run_defs demo_defs)

section \<open>Teardown\<close>

text \<open>
  C6, as the claim states it: \<open>destroy_process_group\<close> is called exactly once on every
  exit path, errors included. With \<open>save_every = 0\<close> on the process of global rank 0,
  the group is initialised, epoch 0 runs, the modulus raises \<^verbatim>\<open>ZeroDivisionError\<close>, and
  the run ends with the group still initialised and the teardown not called.
\<close>

theorem teardown_cex:
  "fst (main demo_fit demo_net (cpu_host (Some ''0'')) (demo_parameters 2 0 ''gloo'')
        (process_start Map.empty)) = Inl ZeroDivisionError
   \<and> epochs_executed (snd (main demo_fit demo_net (cpu_host (Some ''0'')) (demo_parameters 2 0 ''gloo'')
        (process_start Map.empty))) = [0]
   \<and> process_group (snd (main demo_fit demo_net (cpu_host (Some ''0'')) (demo_parameters 2 0 ''gloo'')
        (process_start Map.empty))) = Some ''gloo''
   \<and> destroy_calls (snd (main demo_fit demo_net (cpu_host (Some ''0'')) (demo_parameters 2 0 ''gloo'')
        (process_start Map.empty))) = 0"
  by (simp add: run_defs demo_defs)

text \<open>
  C6, amended: \<open>main\<close> calls the teardown exactly once when the run completes (after the
  epoch loop) and not at all when parameter lookup, setup, construction, snapshot
  loading or training raises: the script has no handler around the run.
\<close>

theorem teardown_count:
  "destroy_calls (snd (main fit fresh h p w)) =
     destroy_calls w + (case fst (main fit fresh h p w) of Inl e \<Rightarrow> 0 | Inr u \<Rightarrow> 1)"
  by (simp add: main_def subscript_def case_prod_beta destroy_process_group_def train_def
      train_loop_destroy_calls Trainer_init_frame ddp_setup_frame split: option.splits sum.splits)

section \<open>Missing global rank\<close>

text \<open>
  C7. When the global-rank variable is absent the run ends with an error, no epoch has
  run, no snapshot has been written and the files are as they were.
\<close>

theorem missing_rank_fatal:
  assumes "RANK h = None"
  shows "(\<exists>e. fst (main fit fresh h p w) = Inl e)
       \<and> epochs_executed (snd (main fit fresh h p w)) = epochs_executed w
       \<and> saved (snd (main fit fresh h p w)) = saved w
       \<and> files (snd (main fit fresh h p w)) = files w"
  using assms
  by (simp add: main_def subscript_def case_prod_beta ddp_setup_no_rank
      ddp_setup_frame split: option.splits sum.splits)

theorem missing_rank_fatal_witness:
  "RANK (cpu_host None) = None
   \<and> (\<exists>e. fst (main demo_fit demo_net (cpu_host None) (demo_parameters 2 1 ''gloo'')
               (process_start Map.empty)) = Inl e)
   \<and> epochs_executed (snd (main demo_fit demo_net (cpu_host None) (demo_parameters 2 1 ''gloo'')
               (process_start Map.empty))) = epochs_executed (process_start Map.empty)
   \<and> saved (snd (main demo_fit demo_net (cpu_host None) (demo_parameters 2 1 ''gloo'')
               (process_start Map.empty))) = saved (process_start Map.empty)
   \<and> files (snd (main demo_fit demo_net (cpu_host None) (demo_parameters 2 1 ''gloo'')
               (process_start Map.empty))) = files (process_start Map.empty)"
proof -
  have h: "RANK (cpu_host None) = None"
    by (simp add: cpu_host_def)
  show ?thesis
    using h missing_rank_fatal [OF h, of demo_fit demo_net "demo_parameters 2 1 ''gloo''"
        "process_start Map.empty"]
    by simp
qed

section \<open>Backend fallback\<close>

text \<open>
  C8, as the claim states it: asking for nccl without an accelerator selects gloo and logs
  a warning. On the host without accelerator the log holds no record of level WARNING.
\<close>

theorem fallback_warning_cex:
  "WARNING \<notin> set (map fst (logged (snd (ddp_setup (cpu_host (Some ''0'')) ''nccl''
      (process_start Map.empty)))))"
  by (simp add: run_defs demo_defs)

text \<open>
  C8, amended: when no accelerator is available, \<open>ddp_setup\<close> asked for nccl in a
  process without a group logs exactly one record, of level INFO, that it falls back to
  the CPU, and hands gloo to \<^verbatim>\<open>init_process_group\<close>: it raises exactly when the
  rendezvous does (as with the rank variable unset), and otherwise the group is
  initialised with gloo.
\<close>

theorem ddp_setup_cpu_fallback:
  assumes "\<not> cuda_is_available h" and "process_group w = None"
  shows "logged (snd (ddp_setup h ''nccl'' w)) = logged w @ [(INFO, NoGpuFallback)]
       \<and> fst (ddp_setup h ''nccl'' w) = map_sum id (\<lambda>r. ()) (rendezvous h)
       \<and> process_group (snd (ddp_setup h ''nccl'' w)) =
           (case rendezvous h of Inl e \<Rightarrow> None | Inr r \<Rightarrow> Some ''gloo'')"
  using assms
  by (simp add: ddp_setup_def init_process_group_def info_def split: sum.splits)

theorem ddp_setup_cpu_fallback_witness:
  "\<not> cuda_is_available (cpu_host (Some ''0''))
   \<and> process_group (process_start Map.empty) = None
   \<and> rendezvous (cpu_host (Some ''0'')) = Inr (0, 1)
   \<and> logged (snd (ddp_setup (cpu_host (Some ''0'')) ''nccl'' (process_start Map.empty)))
       = logged (process_start Map.empty) @ [(INFO, NoGpuFallback)]
   \<and> fst (ddp_setup (cpu_host (Some ''0'')) ''nccl'' (process_start Map.empty))
       = map_sum id (\<lambda>r. ()) (rendezvous (cpu_host (Some ''0'')))
   \<and> process_group (snd (ddp_setup (cpu_host (Some ''0'')) ''nccl'' (process_start Map.empty)))
       = (case rendezvous (cpu_host (Some ''0'')) of Inl e \<Rightarrow> None | Inr r \<Rightarrow> Some ''gloo'')"
proof -
  have h1: "\<not> cuda_is_available (cpu_host (Some ''0''))"
    by (simp add: cpu_host_def)
  have h2: "process_group (process_start Map.empty) = None"
    by (simp add: process_start_def)
  have r: "rendezvous (cpu_host (Some ''0'')) = Inr (0, 1)"
    by (simp add: run_defs cpu_host_def)
  show ?thesis
    using h1 h2 r ddp_setup_cpu_fallback [OF h1 h2]
    by simp
qed

section \<open>Snapshots written without an accelerator\<close>

text \<open>
  C9. Without an accelerator, \<open>save_snapshot\<close> writes the state dict of the wrapper, whose
  keys carry the prefix \<^verbatim>\<open>module.\<close>, and the next Trainer construction loads it into
  the bare network: for every network state saved this way, and whatever the fresh
  network, construction fails with all eight keys missing and all eight prefixed keys
  unexpected.
\<close>

theorem cpu_snapshot_no_roundtrip:
  assumes "\<not> cuda_is_available h" and "model t = DDP n"
    and "environ_get_int (LOCAL_RANK h) (- 1) = Inr lr"
    and "environ_int ''RANK'' (RANK h) = Inr gr"
    and "save_snapshot h t e w = (Inr (), w1)"
  shows "\<exists>w2. Trainer_init h fresh s (snapshot_path t) b (process_start (files w1))
             = (Inl (StateDictMismatch Net_keys (map (\<lambda>k. ''module.'' @ k) Net_keys)), w2)"
proof -
  obtain loc where loc: "resolve h (files w) (snapshot_path t) = Inr loc"
    and nd: "node_at (files w) loc \<noteq> Some Dir"
    and f1: "files w1 = (files w)(loc \<mapsto> SnapshotFile \<lparr>MODEL_STATE = state_dict_of (model t), EPOCHS_RUN = e\<rparr>)"
    using save_snapshot_success [OF assms(5) assms(1)] by blast
  let ?w = "process_start (files w1)"
  have fw: "files ?w = (files w)(loc \<mapsto> SnapshotFile \<lparr>MODEL_STATE = state_dict_of (model t), EPOCHS_RUN = e\<rparr>)"
    by (simp add: process_start_def f1)
  have r: "resolve h (files ?w) (snapshot_path t) = Inr loc"
    unfolding fw using loc nd by (rule resolve_update)
  have n: "node_at (files ?w) loc = Some (SnapshotFile \<lparr>MODEL_STATE = state_dict_of (DDP n), EPOCHS_RUN = e\<rparr>)"
    unfolding fw using nd by (simp add: node_at_update assms(2))
  have "fst (Trainer_init h fresh s (snapshot_path t) b ?w)
      = Inl (StateDictMismatch Net_keys (map (\<lambda>k. ''module.'' @ k) Net_keys))"
    using assms(1) r n assms(3,4) by (rule Trainer_init_mismatch)
  then show ?thesis
    by (metis prod.collapse)
qed

theorem cpu_snapshot_no_roundtrip_witness:
  "\<not> cuda_is_available (cpu_host (Some ''0''))
   \<and> model cpu_trainer = DDP demo_net
   \<and> environ_get_int (LOCAL_RANK (cpu_host (Some ''0''))) (- 1) = Inr (- 1)
   \<and> environ_int ''RANK'' (RANK (cpu_host (Some ''0''))) = Inr 0
   \<and> save_snapshot (cpu_host (Some ''0'')) cpu_trainer 0 (process_start Map.empty)
       = (Inr (), snd (save_snapshot (cpu_host (Some ''0'')) cpu_trainer 0 (process_start Map.empty)))
   \<and> (\<exists>w2. Trainer_init (cpu_host (Some ''0'')) demo_net 1 (snapshot_path cpu_trainer) ''gloo''
               (process_start (files (snd (save_snapshot (cpu_host (Some ''0'')) cpu_trainer 0
                  (process_start Map.empty)))))
             = (Inl (StateDictMismatch Net_keys (map (\<lambda>k. ''module.'' @ k) Net_keys)), w2))"
proof -
  have h1: "\<not> cuda_is_available (cpu_host (Some ''0''))"
    by (simp add: cpu_host_def)
  have h2: "model cpu_trainer = DDP demo_net"
    by (simp add: cpu_trainer_def)
  have h3: "environ_get_int (LOCAL_RANK (cpu_host (Some ''0''))) (- 1) = Inr (- 1)"
    by (simp add: cpu_host_def environ_get_int_def)
  have h4: "environ_int ''RANK'' (RANK (cpu_host (Some ''0''))) = Inr 0"
    by (simp add: run_defs cpu_host_def)
  have h5: "save_snapshot (cpu_host (Some ''0'')) cpu_trainer 0 (process_start Map.empty)
       = (Inr (), snd (save_snapshot (cpu_host (Some ''0'')) cpu_trainer 0 (process_start Map.empty)))"
    by (simp add: run_defs demo_defs)
  show ?thesis
    using h1 h2 h3 h4 h5
      cpu_snapshot_no_roundtrip [OF h1 h2 h3 h4 h5, of demo_net 1 "''gloo''"]
    by simp
qed

section \<open>The command-line entry\<close>

text \<open>
  C10, as the claim states it: every invocation through the entry block raises
  \<^verbatim>\<open>TypeError\<close>. An invocation whose command line the parser rejects (one without
  \<^verbatim>\<open>--epochs\<close>, say) ends with \<^verbatim>\<open>SystemExit\<close> of status 2 instead, before \<open>main\<close> is
  called.
\<close>

theorem entry_point_cex:
  "entry_point demo_fit demo_net (cpu_host (Some ''0'')) (Exits 2) (process_start Map.empty)
     = (Inl (SystemExit 2), process_start Map.empty)"
  by (simp add: entry_point_def)

text \<open>
  C10, amended: no invocation through the entry block reaches setup or training. When
  the parser returns a namespace, the call of \<open>main\<close> with seven keyword arguments, none
  of which is named \<^verbatim>\<open>parameters\<close>, raises \<^verbatim>\<open>TypeError\<close> at the first keyword;
  otherwise the parser has ended the process with \<^verbatim>\<open>SystemExit\<close>. The process state
  is untouched either way.
\<close>

theorem entry_point_outcome:
  "entry_point fit fresh h parsed w =
     (Inl (case parsed of
             Exits status \<Rightarrow> SystemExit status
           | Namespace a \<Rightarrow> TypeError (UnexpectedKeyword ''epochs'')), w)"
  by (cases parsed) (simp_all add: entry_point_def call_main_def bind_arguments_def)

end
